theory Spec2Isabelle
  imports Complex_Main
begin

section \<open>Tensors and the library operations the notebook calls\<close>

text \<open>
  The notebook \<^verbatim>\<open>notebookllm.ipynb\<close> builds a word-level transformer from PyTorch
  modules. Tensor entries are modelled as exact reals, so a statement below is a statement
  about the function the program computes, not about the rounding of 32-bit floats.

  Every call of the notebook feeds one sequence at a time (\<^verbatim>\<open>unsqueeze(0)\<close> makes a batch
  axis of size 1). A tensor of shape \<open>(1, L, D)\<close> is modelled with that axis left out: a
  tensor carries its two remaining sizes and an entry for every pair of indices; entries
  outside the shape are never read by an operation that respects the shape.

  Failures of the Python code are values of type \<open>error\<close>.
\<close>

datatype error = RuntimeError | IndexError | KeyError | ValueError | ZeroDivisionError

record tensor =
  nrow :: nat
  ncol :: nat
  cell :: "nat \<Rightarrow> nat \<Rightarrow> real"

text \<open>\<^verbatim>\<open>t.transpose(1, 2)\<close> of a batched matrix.\<close>

definition transpose12 :: "tensor \<Rightarrow> tensor" where
  "transpose12 t = \<lparr>nrow = ncol t, ncol = nrow t, cell = (\<lambda>i j. cell t j i)\<rparr>"

text \<open>\<^verbatim>\<open>torch.bmm(a, b)\<close>: the matrix product; the inner sizes must agree.\<close>

definition bmm :: "tensor \<Rightarrow> tensor \<Rightarrow> error + tensor" where
  "bmm a b =
     (if ncol a = nrow b
      then Inr \<lparr>nrow = nrow a, ncol = ncol b,
                cell = (\<lambda>i j. \<Sum>k<ncol a. cell a i k * cell b k j)\<rparr>
      else Inl RuntimeError)"

text \<open>Division of every entry by a scalar (\<^verbatim>\<open>t / s\<close>).\<close>

definition div_scalar :: "tensor \<Rightarrow> real \<Rightarrow> tensor" where
  "div_scalar t s = t\<lparr>cell := (\<lambda>i j. cell t i j / s)\<rparr>"

text \<open>
  \<^verbatim>\<open>torch.softmax(t, dim=-1)\<close>: along the last axis,
  \<open>softmax(x)\<^sub>j = exp x\<^sub>j / \<Sum>\<^sub>k exp x\<^sub>k\<close>.
\<close>

definition softmax :: "tensor \<Rightarrow> tensor" where
  "softmax t = t\<lparr>cell := (\<lambda>i j. exp (cell t i j) / (\<Sum>k<ncol t. exp (cell t i k)))\<rparr>"

text \<open>
  \<^verbatim>\<open>nn.Linear(in_features, out_features)\<close>: a weight of shape
  \<open>(out_features, in_features)\<close> and a bias of length \<open>out_features\<close>; the forward call
  computes \<open>x W\<^sup>T + b\<close> and raises when the last size of \<open>x\<close> is not \<open>in_features\<close>.
\<close>

record Linear =
  weight :: tensor
  bias :: "nat \<Rightarrow> real"

definition in_features :: "Linear \<Rightarrow> nat" where
  "in_features l = ncol (weight l)"

definition out_features :: "Linear \<Rightarrow> nat" where
  "out_features l = nrow (weight l)"

definition Linear_forward :: "Linear \<Rightarrow> tensor \<Rightarrow> error + tensor" where
  "Linear_forward l x =
     (if ncol x = in_features l
      then Inr \<lparr>nrow = nrow x, ncol = out_features l,
                cell = (\<lambda>i j. (\<Sum>k<in_features l. cell x i k * cell (weight l) j k) + bias l j)\<rparr>
      else Inl RuntimeError)"

section \<open>The tokenizer and the embedding\<close>

text \<open>
  \<^verbatim>\<open>
  def tokenize(text, vocab):
      return [vocab.get(word, vocab["<UNK>"]) for word in text.split()]
  \<close>
  A Python string is a sequence of Unicode code points, here a list of naturals.
  \<^verbatim>\<open>text.split()\<close> cuts at runs of whitespace and gives no empty word; \<open>isspace\<close> lists the
  code points Python takes for whitespace.

  The dictionary \<^verbatim>\<open>vocab\<close> is a list of key-value pairs in insertion order (the order matters
  when the prediction is mapped back to a word); its keys are distinct, which is \<open>dict_ok\<close>.
  The default \<^verbatim>\<open>vocab["<UNK>"]\<close> is an argument of \<^verbatim>\<open>get\<close>, so it is evaluated for every
  word and raises \<^verbatim>\<open>KeyError\<close> when the key is missing, whether or not the word is known.
\<close>

type_synonym str = "nat list"

definition str_of :: "string \<Rightarrow> str" where
  "str_of s = map of_char s"

definition isspace :: "nat \<Rightarrow> bool" where
  "isspace c \<longleftrightarrow>
     (9 \<le> c \<and> c \<le> 13) \<or> (28 \<le> c \<and> c \<le> 32) \<or> c = 133 \<or> c = 160 \<or> c = 5760 \<or>
     (8192 \<le> c \<and> c \<le> 8202) \<or> c = 8232 \<or> c = 8233 \<or> c = 8239 \<or> c = 8287 \<or> c = 12288"

fun split_from :: "str \<Rightarrow> str \<Rightarrow> str list" where
  "split_from w [] = (if w = [] then [] else [w])"
| "split_from w (c # cs) =
     (if isspace c then (if w = [] then split_from [] cs else w # split_from [] cs)
      else split_from (w @ [c]) cs)"

definition split :: "str \<Rightarrow> str list" where
  "split text = split_from [] text"

type_synonym dict = "(str \<times> int) list"

definition dict_ok :: "dict \<Rightarrow> bool" where
  "dict_ok vocab \<longleftrightarrow> distinct (map fst vocab)"

definition UNK :: str where
  "UNK = str_of ''<UNK>''"

definition getitem :: "dict \<Rightarrow> str \<Rightarrow> error + int" where
  "getitem vocab k = (case map_of vocab k of None \<Rightarrow> Inl KeyError | Some v \<Rightarrow> Inr v)"

definition get :: "dict \<Rightarrow> str \<Rightarrow> int \<Rightarrow> int" where
  "get vocab k d = (case map_of vocab k of None \<Rightarrow> d | Some v \<Rightarrow> v)"

text \<open>A list comprehension whose element expression may raise: the first failure ends it.\<close>

fun comprehension :: "('a \<Rightarrow> error + 'b) \<Rightarrow> 'a list \<Rightarrow> error + 'b list" where
  "comprehension f [] = Inr []"
| "comprehension f (x # xs) =
     (case f x of Inl e \<Rightarrow> Inl e | Inr y \<Rightarrow>
      case comprehension f xs of Inl e \<Rightarrow> Inl e | Inr ys \<Rightarrow> Inr (y # ys))"

definition tokenize :: "str \<Rightarrow> dict \<Rightarrow> error + int list" where
  "tokenize text vocab =
     comprehension
       (\<lambda>word. case getitem vocab UNK of Inl e \<Rightarrow> Inl e | Inr d \<Rightarrow> Inr (get vocab word d))
       (split text)"

text \<open>
  The number of whitespace-separated words of a text, counted on the text itself: a word
  starts at every character that is no whitespace and stands first in the text or after a
  whitespace character. (The character 32 before the text is a blank.)
\<close>

definition word_starts :: "str \<Rightarrow> nat" where
  "word_starts text =
     length (filter (\<lambda>(before, c). isspace before \<and> \<not> isspace c) (zip (32 # text) text))"

text \<open>
  \<^verbatim>\<open>
  class Embedding(nn.Module):
      def __init__(self, vocab_size, embedding_dim):
          self.embedding = nn.Embedding(vocab_size, embedding_dim)
      def forward(self, x):
          return self.embedding(x)
  \<close>
  The table has one row for every id; the lookup of an id outside \<open>[0, vocab_size)\<close> raises
  \<^verbatim>\<open>IndexError\<close>. The argument is a tensor of integers, here the list of its entries. (The
  notebook makes its tensors with \<^verbatim>\<open>torch.tensor\<close> from a list of ids; of the empty list that
  is a tensor of floats, which the lookup refuses: see \<open>predict_token\<close> below.)
\<close>

definition Embedding_forward :: "tensor \<Rightarrow> int list \<Rightarrow> error + tensor" where
  "Embedding_forward table x =
     (if \<forall>i\<in>set x. 0 \<le> i \<and> i < int (nrow table)
      then Inr \<lparr>nrow = length x, ncol = ncol table,
                cell = (\<lambda>p c. cell table (nat (x ! p)) c)\<rparr>
      else Inl IndexError)"

section \<open>SelfAttention\<close>

text \<open>
  \<^verbatim>\<open>
  class SelfAttention(nn.Module):
      def __init__(self, embedding_dim):
          self.query = nn.Linear(embedding_dim, embedding_dim)
          self.key = nn.Linear(embedding_dim, embedding_dim)
          self.value = nn.Linear(embedding_dim, embedding_dim)
      def forward(self, x):
          queries = self.query(x)
          keys = self.key(x)
          values = self.value(x)
          scores = torch.bmm(queries, keys.transpose(1, 2)) / torch.sqrt(
              torch.tensor(x.size(-1), dtype=torch.float32))
          attention_weights = torch.softmax(scores, dim=-1)
          attended_values = torch.bmm(attention_weights, values)
          return attended_values
  \<close>
  The field \<open>value\<close> is written \<open>value'\<close>. The constructor makes the three layers of shape
  \<open>D \<rightarrow> D\<close>; that is \<open>SelfAttention_ok D\<close>.
\<close>

record SelfAttention =
  query :: Linear
  key :: Linear
  value' :: Linear

definition Linear_ok :: "nat \<Rightarrow> nat \<Rightarrow> Linear \<Rightarrow> bool" where
  "Linear_ok n m l \<longleftrightarrow> in_features l = n \<and> out_features l = m"

definition SelfAttention_ok :: "nat \<Rightarrow> SelfAttention \<Rightarrow> bool" where
  "SelfAttention_ok D a \<longleftrightarrow>
     Linear_ok D D (query a) \<and> Linear_ok D D (key a) \<and> Linear_ok D D (value' a)"

text \<open>
  \<open>SelfAttention_locals\<close> runs the body of \<^verbatim>\<open>forward\<close> and gives the two local variables
  \<^verbatim>\<open>attention_weights\<close> and \<^verbatim>\<open>attended_values\<close>; \<^verbatim>\<open>forward\<close> returns the second.
  The divisor \<^verbatim>\<open>sqrt(x.size(-1))\<close> is 0 for a last size of 0, where PyTorch computes NaN
  and HOL's division gives 0: the theorems on attention ask for a positive last size.
\<close>

definition SelfAttention_locals :: "SelfAttention \<Rightarrow> tensor \<Rightarrow> error + (tensor \<times> tensor)" where
  "SelfAttention_locals a x =
     (case Linear_forward (query a) x of Inl e \<Rightarrow> Inl e | Inr queries \<Rightarrow>
      case Linear_forward (key a) x of Inl e \<Rightarrow> Inl e | Inr keys \<Rightarrow>
      case Linear_forward (value' a) x of Inl e \<Rightarrow> Inl e | Inr values \<Rightarrow>
      case bmm queries (transpose12 keys) of Inl e \<Rightarrow> Inl e | Inr qk \<Rightarrow>
        let scores = div_scalar qk (sqrt (real (ncol x)));
            attention_weights = softmax scores
        in case bmm attention_weights values of Inl e \<Rightarrow> Inl e | Inr attended_values \<Rightarrow>
             Inr (attention_weights, attended_values))"

definition SelfAttention_forward :: "SelfAttention \<Rightarrow> tensor \<Rightarrow> error + tensor" where
  "SelfAttention_forward a x = map_sum id snd (SelfAttention_locals a x)"

definition SelfAttention_weights :: "SelfAttention \<Rightarrow> tensor \<Rightarrow> error + tensor" where
  "SelfAttention_weights a x = map_sum id fst (SelfAttention_locals a x)"

subsection \<open>The attention formula, in the words of the specification\<close>

text \<open>
  A linear projection of the row \<open>i\<close> of \<open>x\<close>, the scaled scores \<open>Q K\<^sup>T / sqrt D\<close>, their
  softmax over the key axis, and the weighted sum of the value rows over all key positions.
\<close>

definition project :: "Linear \<Rightarrow> tensor \<Rightarrow> nat \<Rightarrow> nat \<Rightarrow> real" where
  "project l x i c = (\<Sum>k<ncol x. cell x i k * cell (weight l) c k) + bias l c"

definition scaled_score :: "SelfAttention \<Rightarrow> tensor \<Rightarrow> nat \<Rightarrow> nat \<Rightarrow> real" where
  "scaled_score a x q k =
     (\<Sum>c<ncol x. project (query a) x q c * project (key a) x k c) / sqrt (real (ncol x))"

definition softmax_weight :: "SelfAttention \<Rightarrow> tensor \<Rightarrow> nat \<Rightarrow> nat \<Rightarrow> real" where
  "softmax_weight a x q k =
     exp (scaled_score a x q k) / (\<Sum>j<nrow x. exp (scaled_score a x q j))"

definition attention :: "SelfAttention \<Rightarrow> tensor \<Rightarrow> nat \<Rightarrow> nat \<Rightarrow> real" where
  "attention a x q c = (\<Sum>k<nrow x. softmax_weight a x q k * project (value' a) x k c)"

text \<open>Reordering the positions of a sequence: position \<open>i\<close> of the result is position \<open>p i\<close>.\<close>

definition permute :: "(nat \<Rightarrow> nat) \<Rightarrow> tensor \<Rightarrow> tensor" where
  "permute p x = x\<lparr>cell := (\<lambda>i c. cell x (p i) c)\<rparr>"

section \<open>PositionalEncoding\<close>

text \<open>
  \<^verbatim>\<open>
  class PositionalEncoding(nn.Module):
      def __init__(self, embedding_dim, max_seq_len=5000):
          self.embedding_dim = embedding_dim
          pe = torch.zeros(max_seq_len, embedding_dim)
          position = torch.arange(0, max_seq_len, dtype=torch.float).unsqueeze(1)
          div_term = torch.exp(torch.arange(0, embedding_dim, 2).float()
                               * (-math.log(10000.0) / embedding_dim))
          pe[:, 0::2] = torch.sin(position * div_term)
          pe[:, 1::2] = torch.cos(position * div_term)
          pe = pe.unsqueeze(0).transpose(0, 1)
          self.register_buffer('pe', pe)
      def forward(self, x):
          return x + self.pe[:x.size(0), :]
  \<close>
  The buffer has shape \<open>(max_seq_len, 1, D)\<close> and the model passes an input of shape
  \<open>(L, 1, D)\<close>; both are modelled without the middle axis of size 1.

  \<open>div_term\<close> has one entry for every even channel, \<open>(D + 1) div 2\<close> of them. The Python
  division by \<open>embedding_dim\<close> raises for \<open>D = 0\<close>. The second slice assignment writes
  \<open>(D + 1) div 2\<close> columns into the \<open>D div 2\<close> odd channels: the sizes agree for an even
  \<open>D\<close>, a single column is expanded into the empty slice for \<open>D = 1\<close>, and every other odd
  \<open>D\<close> raises a size mismatch.
\<close>

record PositionalEncoding =
  embedding_dim :: nat
  pe :: tensor

definition div_term :: "nat \<Rightarrow> nat \<Rightarrow> real" where
  "div_term D i = exp (real (2 * i) * (- ln 10000 / real D))"

definition sinusoid_table :: "nat \<Rightarrow> nat \<Rightarrow> tensor" where
  "sinusoid_table D max_seq_len =
     \<lparr>nrow = max_seq_len, ncol = D,
      cell = (\<lambda>p c. if even c then sin (real p * div_term D (c div 2))
                      else cos (real p * div_term D (c div 2)))\<rparr>"

definition PositionalEncoding_init :: "nat \<Rightarrow> nat \<Rightarrow> error + PositionalEncoding" where
  "PositionalEncoding_init D max_seq_len =
     (if D = 0 then Inl ZeroDivisionError
      else if D div 2 = (D + 1) div 2 \<or> (D + 1) div 2 = 1
      then Inr \<lparr>embedding_dim = D, pe = sinusoid_table D max_seq_len\<rparr>
      else Inl RuntimeError)"

text \<open>
  The slice \<^verbatim>\<open>t[:n, :]\<close> keeps the first \<open>n\<close> rows, or all rows when there are fewer (a
  Python slice never fails on a bound that is too large).
\<close>

definition slice_rows :: "nat \<Rightarrow> tensor \<Rightarrow> tensor" where
  "slice_rows n t = t\<lparr>nrow := min n (nrow t)\<rparr>"

text \<open>
  The addition of two tensors broadcasts: along each axis the two sizes must be equal, or one
  of them is 1 and its only entry is used at every index of the other.
\<close>

definition broadcast_size :: "nat \<Rightarrow> nat \<Rightarrow> nat option" where
  "broadcast_size a b =
     (if a = b then Some a else if a = 1 then Some b else if b = 1 then Some a else None)"

definition expand_index :: "nat \<Rightarrow> nat \<Rightarrow> nat" where
  "expand_index n i = (if n = 1 then 0 else i)"

definition add_broadcast :: "tensor \<Rightarrow> tensor \<Rightarrow> error + tensor" where
  "add_broadcast a b =
     (case broadcast_size (nrow a) (nrow b) of None \<Rightarrow> Inl RuntimeError | Some r \<Rightarrow>
      case broadcast_size (ncol a) (ncol b) of None \<Rightarrow> Inl RuntimeError | Some c \<Rightarrow>
        Inr \<lparr>nrow = r, ncol = c,
             cell = (\<lambda>i j. cell a (expand_index (nrow a) i) (expand_index (ncol a) j)
                          + cell b (expand_index (nrow b) i) (expand_index (ncol b) j))\<rparr>)"

definition PositionalEncoding_forward :: "PositionalEncoding \<Rightarrow> tensor \<Rightarrow> error + tensor" where
  "PositionalEncoding_forward m x = add_broadcast x (slice_rows (nrow x) (pe m))"

section \<open>TransformerBlock\<close>

text \<open>
  \<^verbatim>\<open>nn.LayerNorm(D)\<close> keeps a per-channel scale (\<open>weight\<close>, here \<open>ln_weight\<close>) and shift
  (\<open>bias\<close>, here \<open>ln_bias\<close>) and the
  constant \<open>eps\<close>, which the constructor call of the notebook leaves at its default
  \<open>1e-5\<close>. For every token it computes, over the \<open>D\<close> channels of that token,
  \<open>(x - E[x]) / sqrt (Var[x] + eps) * weight + bias\<close>, with the variance that divides by
  \<open>D\<close>; it raises when the last size of the input is not \<open>D\<close>.
\<close>

record LayerNorm =
  normalized_shape :: nat
  eps :: real
  ln_weight :: "nat \<Rightarrow> real"
  ln_bias :: "nat \<Rightarrow> real"

definition mean :: "nat \<Rightarrow> (nat \<Rightarrow> real) \<Rightarrow> real" where
  "mean D v = (\<Sum>c<D. v c) / real D"

definition variance :: "nat \<Rightarrow> (nat \<Rightarrow> real) \<Rightarrow> real" where
  "variance D v = (\<Sum>c<D. (v c - mean D v)\<^sup>2) / real D"

definition normalized :: "real \<Rightarrow> nat \<Rightarrow> (nat \<Rightarrow> real) \<Rightarrow> nat \<Rightarrow> real" where
  "normalized e D v c = (v c - mean D v) / sqrt (variance D v + e)"

definition layer_norm :: "LayerNorm \<Rightarrow> (nat \<Rightarrow> real) \<Rightarrow> nat \<Rightarrow> real" where
  "layer_norm n v c =
     normalized (eps n) (normalized_shape n) v c * ln_weight n c + ln_bias n c"

definition LayerNorm_forward :: "LayerNorm \<Rightarrow> tensor \<Rightarrow> error + tensor" where
  "LayerNorm_forward n x =
     (if ncol x = normalized_shape n
      then Inr (x\<lparr>cell := (\<lambda>i. layer_norm n (cell x i))\<rparr>)
      else Inl RuntimeError)"

definition LayerNorm_ok :: "nat \<Rightarrow> LayerNorm \<Rightarrow> bool" where
  "LayerNorm_ok D n \<longleftrightarrow> normalized_shape n = D \<and> eps n = 1 / 100000"

text \<open>\<^verbatim>\<open>nn.ReLU()\<close>: the rectified linear function, entry by entry.\<close>

definition relu :: "tensor \<Rightarrow> tensor" where
  "relu t = t\<lparr>cell := (\<lambda>i j. max 0 (cell t i j))\<rparr>"

text \<open>
  \<^verbatim>\<open>
  class TransformerBlock(nn.Module):
      def __init__(self, embedding_dim, hidden_dim):
          self.attention = SelfAttention(embedding_dim)
          self.feed_forward = nn.Sequential(
              nn.Linear(embedding_dim, hidden_dim),
              nn.ReLU(),
              nn.Linear(hidden_dim, embedding_dim)
          )
          self.norm1 = nn.LayerNorm(embedding_dim)
          self.norm2 = nn.LayerNorm(embedding_dim)
      def forward(self, x):
          attended = self.attention(x)
          x = self.norm1(x + attended)
          forwarded = self.feed_forward(x)
          x = self.norm2(x + forwarded)
          return x
  \<close>
  The two linear layers of \<^verbatim>\<open>feed_forward\<close> are the fields \<open>feed_forward_0\<close> and
  \<open>feed_forward_2\<close>, after their indices in the \<^verbatim>\<open>nn.Sequential\<close>; the field
  \<open>attention\<close> is written \<open>attention_layer\<close>.
\<close>

record TransformerBlock =
  attention_layer :: SelfAttention
  feed_forward_0 :: Linear
  feed_forward_2 :: Linear
  norm1 :: LayerNorm
  norm2 :: LayerNorm

definition TransformerBlock_ok :: "nat \<Rightarrow> nat \<Rightarrow> TransformerBlock \<Rightarrow> bool" where
  "TransformerBlock_ok D H b \<longleftrightarrow>
     SelfAttention_ok D (attention_layer b) \<and>
     Linear_ok D H (feed_forward_0 b) \<and> Linear_ok H D (feed_forward_2 b) \<and>
     LayerNorm_ok D (norm1 b) \<and> LayerNorm_ok D (norm2 b)"

definition feed_forward :: "TransformerBlock \<Rightarrow> tensor \<Rightarrow> error + tensor" where
  "feed_forward b x =
     (case Linear_forward (feed_forward_0 b) x of Inl e \<Rightarrow> Inl e | Inr h \<Rightarrow>
        Linear_forward (feed_forward_2 b) (relu h))"

definition TransformerBlock_forward :: "TransformerBlock \<Rightarrow> tensor \<Rightarrow> error + tensor" where
  "TransformerBlock_forward b x =
     (case SelfAttention_forward (attention_layer b) x of Inl e \<Rightarrow> Inl e | Inr attended \<Rightarrow>
      case add_broadcast x attended of Inl e \<Rightarrow> Inl e | Inr s1 \<Rightarrow>
      case LayerNorm_forward (norm1 b) s1 of Inl e \<Rightarrow> Inl e | Inr x1 \<Rightarrow>
      case feed_forward b x1 of Inl e \<Rightarrow> Inl e | Inr forwarded \<Rightarrow>
      case add_broadcast x1 forwarded of Inl e \<Rightarrow> Inl e | Inr s2 \<Rightarrow>
        LayerNorm_forward (norm2 b) s2)"

subsection \<open>The block, in the words of the specification\<close>

text \<open>
  For the token at position \<open>p\<close>: \<open>x1 = LayerNorm (x + attended)\<close>,
  \<open>forwarded = Linear (relu (Linear x1))\<close> and \<open>x2 = LayerNorm (x1 + forwarded)\<close>.
\<close>

definition block_x1 :: "TransformerBlock \<Rightarrow> tensor \<Rightarrow> nat \<Rightarrow> nat \<Rightarrow> real" where
  "block_x1 b x p =
     layer_norm (norm1 b) (\<lambda>c. cell x p c + attention (attention_layer b) x p c)"

definition block_forwarded :: "TransformerBlock \<Rightarrow> tensor \<Rightarrow> nat \<Rightarrow> nat \<Rightarrow> real" where
  "block_forwarded b x p c =
     (\<Sum>h<out_features (feed_forward_0 b).
        max 0 ((\<Sum>k<ncol x. block_x1 b x p k * cell (weight (feed_forward_0 b)) h k)
               + bias (feed_forward_0 b) h)
        * cell (weight (feed_forward_2 b)) c h)
     + bias (feed_forward_2 b) c"

definition block_x2 :: "TransformerBlock \<Rightarrow> tensor \<Rightarrow> nat \<Rightarrow> nat \<Rightarrow> real" where
  "block_x2 b x p =
     layer_norm (norm2 b) (\<lambda>c. block_x1 b x p c + block_forwarded b x p c)"

section \<open>SimpleLLM and the prediction\<close>

text \<open>
  \<^verbatim>\<open>
  class SimpleLLM(nn.Module):
      def __init__(self, vocab_size, embedding_dim, hidden_dim, num_layers):
          self.embedding = Embedding(vocab_size, embedding_dim)
          self.positional_encoding = PositionalEncoding(embedding_dim)
          self.transformer_blocks = nn.Sequential(
              *[TransformerBlock(embedding_dim, hidden_dim) for _ in range(num_layers)])
          self.output = nn.Linear(embedding_dim, vocab_size)
      def forward(self, x):
          x = self.embedding(x)
          x = x.transpose(0, 1)
          x = self.positional_encoding(x)
          x = x.transpose(0, 1)
          x = self.transformer_blocks(x)
          x = self.output(x)
          return x
  \<close>
  The two transpositions exchange the batch axis of size 1 with the sequence axis, so that
  \<^verbatim>\<open>x.size(0)\<close> inside the positional encoding is the sequence length; with the batch axis
  left out of the model they do not show. The field \<open>output\<close> is written \<open>output'\<close>, and
  the field \<open>embedding\<close> is the table of the
  \<^verbatim>\<open>nn.Embedding\<close>. The positional encoding is built with the default \<open>max_seq_len = 5000\<close>.
\<close>

record SimpleLLM =
  embedding :: tensor
  positional_encoding :: PositionalEncoding
  transformer_blocks :: "TransformerBlock list"
  output' :: Linear

definition SimpleLLM_ok :: "nat \<Rightarrow> nat \<Rightarrow> nat \<Rightarrow> SimpleLLM \<Rightarrow> bool" where
  "SimpleLLM_ok V D H m \<longleftrightarrow>
     nrow (embedding m) = V \<and> ncol (embedding m) = D \<and>
     PositionalEncoding_init D 5000 = Inr (positional_encoding m) \<and>
     list_all (TransformerBlock_ok D H) (transformer_blocks m) \<and>
     Linear_ok D V (output' m)"

text \<open>\<^verbatim>\<open>nn.Sequential\<close>: the output of a block is the input of the next.\<close>

fun Sequential_forward :: "TransformerBlock list \<Rightarrow> tensor \<Rightarrow> error + tensor" where
  "Sequential_forward [] x = Inr x"
| "Sequential_forward (b # bs) x =
     (case TransformerBlock_forward b x of Inl e \<Rightarrow> Inl e | Inr y \<Rightarrow> Sequential_forward bs y)"

definition SimpleLLM_forward :: "SimpleLLM \<Rightarrow> int list \<Rightarrow> error + tensor" where
  "SimpleLLM_forward m x =
     (case Embedding_forward (embedding m) x of Inl e \<Rightarrow> Inl e | Inr x1 \<Rightarrow>
      case PositionalEncoding_forward (positional_encoding m) x1 of Inl e \<Rightarrow> Inl e | Inr x2 \<Rightarrow>
      case Sequential_forward (transformer_blocks m) x2 of Inl e \<Rightarrow> Inl e | Inr x3 \<Rightarrow>
        Linear_forward (output' m) x3)"

text \<open>
  \<^verbatim>\<open>
  input_tokens = tokenize(input_text, vocab)
  input_tensor = torch.tensor(input_tokens).unsqueeze(0)
  output = model(input_tensor)
  predicted_token = torch.argmax(output[:, -1, :]).item()
  print(... list(vocab.keys())[list(vocab.values()).index(predicted_token)] ...)
  \<close>
  \<^verbatim>\<open>torch.tensor([])\<close> is a tensor of floats, which the embedding refuses as indices.
  \<^verbatim>\<open>output[:, -1, :]\<close> is the row of the last position and raises on a sequence of length 0.
  \<^verbatim>\<open>torch.argmax\<close> gives the index of the greatest entry, the first one if several entries
  are greatest (as its documentation says); \<open>argmax_upto v n\<close> scans the entries \<open>0..n\<close>
  and keeps the earlier index unless a later entry is strictly greater.
  \<^verbatim>\<open>list.index\<close> gives the first position of a value and raises \<^verbatim>\<open>ValueError\<close> when there is
  none.
\<close>

definition select_last :: "tensor \<Rightarrow> error + (nat \<Rightarrow> real)" where
  "select_last t = (if nrow t = 0 then Inl IndexError else Inr (cell t (nrow t - 1)))"

fun argmax_upto :: "(nat \<Rightarrow> real) \<Rightarrow> nat \<Rightarrow> nat" where
  "argmax_upto v 0 = 0"
| "argmax_upto v (Suc n) =
     (let best = argmax_upto v n in if v best < v (Suc n) then Suc n else best)"

definition argmax :: "(nat \<Rightarrow> real) \<Rightarrow> nat \<Rightarrow> error + nat" where
  "argmax v n = (if n = 0 then Inl IndexError else Inr (argmax_upto v (n - 1)))"

definition predict_token :: "SimpleLLM \<Rightarrow> int list \<Rightarrow> error + nat" where
  "predict_token m input_tokens =
     (if input_tokens = [] then Inl RuntimeError
      else case SimpleLLM_forward m input_tokens of Inl e \<Rightarrow> Inl e | Inr out \<Rightarrow>
           case select_last out of Inl e \<Rightarrow> Inl e | Inr logits \<Rightarrow> argmax logits (ncol out))"

fun index :: "'a list \<Rightarrow> 'a \<Rightarrow> error + nat" where
  "index [] v = Inl ValueError"
| "index (x # xs) v = (if x = v then Inr 0 else map_sum id Suc (index xs v))"

definition predict :: "SimpleLLM \<Rightarrow> dict \<Rightarrow> str \<Rightarrow> error + str" where
  "predict m vocab input_text =
     (case tokenize input_text vocab of Inl e \<Rightarrow> Inl e | Inr input_tokens \<Rightarrow>
      case predict_token m input_tokens of Inl e \<Rightarrow> Inl e | Inr predicted_token \<Rightarrow>
      case index (map snd vocab) (int predicted_token) of Inl e \<Rightarrow> Inl e | Inr i \<Rightarrow>
        Inr (map fst vocab ! i))"

section \<open>The training loop\<close>

text \<open>
  \<^verbatim>\<open>
  model = SimpleLLM(vocab_size, embedding_dim, hidden_dim, num_layers)
  criterion = nn.CrossEntropyLoss()
  optimizer = optim.Adam(model.parameters(), lr=0.001)
  for epoch in range(100):
      for sentence in tokenized_data:
          for i in range(1, len(sentence)):
              input_seq = torch.tensor(sentence[:i]).unsqueeze(0)
              target = torch.tensor(sentence[i]).unsqueeze(0)
              optimizer.zero_grad()
              output = model(input_seq)
              loss = criterion(output[:, -1, :], target)
              loss.backward()
              optimizer.step()
  \<close>
  \<^verbatim>\<open>model.parameters()\<close> are the trainable tensors: the embedding table, the layers of the
  blocks and the output layer. The positional table is registered as a buffer and is not
  among them.
\<close>

record params =
  p_embedding :: tensor
  p_blocks :: "TransformerBlock list"
  p_output :: Linear

definition parameters :: "SimpleLLM \<Rightarrow> params" where
  "parameters m =
     \<lparr>p_embedding = embedding m, p_blocks = transformer_blocks m, p_output = output' m\<rparr>"

definition load_parameters :: "SimpleLLM \<Rightarrow> params \<Rightarrow> SimpleLLM" where
  "load_parameters m \<theta> =
     m\<lparr>embedding := p_embedding \<theta>, transformer_blocks := p_blocks \<theta>, output' := p_output \<theta>\<rparr>"

text \<open>
  \<^verbatim>\<open>nn.CrossEntropyLoss\<close> on one row of logits and one target: minus the logarithm of the
  softmax of the logits at the target, and \<^verbatim>\<open>IndexError\<close> for a target that is no class.
  PyTorch treats the target \<open>-100\<close> apart (it is ignored, and the mean over no target is
  NaN); here it is an error like every other negative target, and the theorems on the training
  loop are about ids that are not negative.
\<close>

definition cross_entropy :: "(nat \<Rightarrow> real) \<Rightarrow> nat \<Rightarrow> int \<Rightarrow> error + real" where
  "cross_entropy logits V target =
     (if 0 \<le> target \<and> target < int V
      then Inr (ln (\<Sum>j<V. exp (logits j)) - logits (nat target))
      else Inl IndexError)"

definition loss_of :: "SimpleLLM \<Rightarrow> int list \<Rightarrow> int \<Rightarrow> error + real" where
  "loss_of m input_seq target =
     (case SimpleLLM_forward m input_seq of Inl e \<Rightarrow> Inl e | Inr out \<Rightarrow>
      case select_last out of Inl e \<Rightarrow> Inl e | Inr logits \<Rightarrow>
        cross_entropy logits (ncol out) target)"

text \<open>
  The state of the training: the model, the gradient stored with the parameters
  (\<^verbatim>\<open>.grad\<close>, \<open>None\<close> after \<^verbatim>\<open>zero_grad\<close>), the state of the optimizer, the variable
  \<^verbatim>\<open>loss\<close>, and the number of calls of \<^verbatim>\<open>optimizer.step()\<close> so far.

  Differentiation and the update rule of the optimizer belong to the library and are
  parameters of the model: \<open>autograd f \<theta>\<close> is the gradient at \<open>\<theta>\<close> of the loss \<open>f\<close> as a
  function of the parameters, and \<open>update s \<theta> g\<close> gives the next optimizer state and the
  next parameters. \<^verbatim>\<open>backward\<close> adds the gradient to the stored one; \<^verbatim>\<open>step\<close> leaves
  parameters without a gradient alone.
\<close>

record ('g, 's) trainer =
  model :: SimpleLLM
  grad :: "'g option"
  optimizer :: 's
  loss :: "real option"
  step_calls :: nat

definition zero_grad :: "('g, 's) trainer \<Rightarrow> ('g, 's) trainer" where
  "zero_grad st = st\<lparr>grad := None\<rparr>"

definition loss_function :: "SimpleLLM \<Rightarrow> int list \<Rightarrow> int \<Rightarrow> params \<Rightarrow> real" where
  "loss_function m input_seq target \<theta> =
     (case loss_of (load_parameters m \<theta>) input_seq target of Inl e \<Rightarrow> 0 | Inr l \<Rightarrow> l)"

definition backward ::
  "((params \<Rightarrow> real) \<Rightarrow> params \<Rightarrow> 'g::plus) \<Rightarrow> ('g, 's) trainer \<Rightarrow> int list \<Rightarrow> int \<Rightarrow> ('g, 's) trainer"
where
  "backward autograd st input_seq target =
     (let g = autograd (loss_function (model st) input_seq target) (parameters (model st))
      in st\<lparr>grad := Some (case grad st of None \<Rightarrow> g | Some g0 \<Rightarrow> g0 + g)\<rparr>)"

definition step ::
  "('s \<Rightarrow> params \<Rightarrow> 'g \<Rightarrow> 's \<times> params) \<Rightarrow> ('g, 's) trainer \<Rightarrow> ('g, 's) trainer"
where
  "step update st =
     (case grad st of
        None \<Rightarrow> st\<lparr>step_calls := step_calls st + 1\<rparr>
      | Some g \<Rightarrow>
          (case update (optimizer st) (parameters (model st)) g of (s', \<theta>') \<Rightarrow>
             st\<lparr>model := load_parameters (model st) \<theta>', optimizer := s',
                step_calls := step_calls st + 1\<rparr>))"

text \<open>
  A \<^verbatim>\<open>for\<close> loop over a list. An exception ends the loop; the state reached so far stays
  as it is, so the loop gives the error, if any, and the state.
\<close>

fun for_loop :: "('a \<Rightarrow> 'st \<Rightarrow> error option \<times> 'st) \<Rightarrow> 'a list \<Rightarrow> 'st \<Rightarrow> error option \<times> 'st" where
  "for_loop body [] st = (None, st)"
| "for_loop body (x # xs) st =
     (case body x st of (Some e, st') \<Rightarrow> (Some e, st') | (None, st') \<Rightarrow> for_loop body xs st')"

definition train_prefix ::
  "((params \<Rightarrow> real) \<Rightarrow> params \<Rightarrow> 'g::plus) \<Rightarrow> ('s \<Rightarrow> params \<Rightarrow> 'g \<Rightarrow> 's \<times> params) \<Rightarrow>
   int list \<Rightarrow> nat \<Rightarrow> ('g, 's) trainer \<Rightarrow> error option \<times> ('g, 's) trainer"
where
  "train_prefix autograd update sentence i st =
     (let input_seq = take i sentence;
          target = sentence ! i;
          st1 = zero_grad st
      in case loss_of (model st1) input_seq target of
           Inl e \<Rightarrow> (Some e, st1)
         | Inr l \<Rightarrow>
             (None, step update (backward autograd (st1\<lparr>loss := Some l\<rparr>) input_seq target)))"

definition train_sentence ::
  "((params \<Rightarrow> real) \<Rightarrow> params \<Rightarrow> 'g::plus) \<Rightarrow> ('s \<Rightarrow> params \<Rightarrow> 'g \<Rightarrow> 's \<times> params) \<Rightarrow>
   int list \<Rightarrow> ('g, 's) trainer \<Rightarrow> error option \<times> ('g, 's) trainer"
where
  "train_sentence autograd update sentence st =
     for_loop (train_prefix autograd update sentence) [1..<length sentence] st"

definition train ::
  "((params \<Rightarrow> real) \<Rightarrow> params \<Rightarrow> 'g::plus) \<Rightarrow> ('s \<Rightarrow> params \<Rightarrow> 'g \<Rightarrow> 's \<times> params) \<Rightarrow>
   nat \<Rightarrow> int list list \<Rightarrow> ('g, 's) trainer \<Rightarrow> error option \<times> ('g, 's) trainer"
where
  "train autograd update epochs tokenized_data st =
     for_loop (\<lambda>epoch. for_loop (train_sentence autograd update) tokenized_data) [0..<epochs] st"

text \<open>
  The shapes of the trainable tensors, as the constructor makes them. An update rule of an
  optimizer changes the entries of the parameters and keeps their shapes.
\<close>

definition params_ok :: "nat \<Rightarrow> nat \<Rightarrow> nat \<Rightarrow> params \<Rightarrow> bool" where
  "params_ok V D H \<theta> \<longleftrightarrow>
     nrow (p_embedding \<theta>) = V \<and> ncol (p_embedding \<theta>) = D \<and>
     list_all (TransformerBlock_ok D H) (p_blocks \<theta>) \<and> Linear_ok D V (p_output \<theta>)"

definition keeps_shapes ::
  "nat \<Rightarrow> nat \<Rightarrow> nat \<Rightarrow> ('s \<Rightarrow> params \<Rightarrow> 'g \<Rightarrow> 's \<times> params) \<Rightarrow> bool" where
  "keeps_shapes V D H update \<longleftrightarrow>
     (\<forall>s \<theta> g. params_ok V D H \<theta> \<longrightarrow> params_ok V D H (snd (update s \<theta> g)))"

subsection \<open>The trainer, in the words of the specification\<close>

text \<open>
  The training examples of a sequence: every token after the first is the target of the
  tokens before it, in the order of the sequence.
\<close>

fun examples_from :: "int list \<Rightarrow> int list \<Rightarrow> (int list \<times> int) list" where
  "examples_from seen [] = []"
| "examples_from seen (t # rest) = (seen, t) # examples_from (seen @ [t]) rest"

definition examples :: "int list \<Rightarrow> (int list \<times> int) list" where
  "examples S = (case S of [] \<Rightarrow> [] | first # rest \<Rightarrow> examples_from [first] rest)"

text \<open>
  The loss of one example: run the model forward on the input, take the logits at the last
  position only, and take the cross-entropy against the target, which is minus the logarithm
  of the probability that the softmax of these logits gives to the target.
\<close>

definition softmax_probability :: "(nat \<Rightarrow> real) \<Rightarrow> nat \<Rightarrow> nat \<Rightarrow> real" where
  "softmax_probability logits V t = exp (logits t) / (\<Sum>j<V. exp (logits j))"

definition example_loss :: "SimpleLLM \<Rightarrow> int list \<times> int \<Rightarrow> error + real" where
  "example_loss m ex =
     (case SimpleLLM_forward m (fst ex) of
        Inl e \<Rightarrow> Inl e
      | Inr out \<Rightarrow>
          if nrow out = 0 \<or> snd ex < 0 \<or> int (ncol out) \<le> snd ex then Inl IndexError
          else Inr (- ln (softmax_probability (cell out (nrow out - 1)) (ncol out)
                           (nat (snd ex)))))"

text \<open>The model with its trainable tensors replaced and its positional table kept.\<close>

definition with_parameters :: "SimpleLLM \<Rightarrow> params \<Rightarrow> SimpleLLM" where
  "with_parameters m \<theta> =
     \<lparr>embedding = p_embedding \<theta>, positional_encoding = positional_encoding m,
      transformer_blocks = p_blocks \<theta>, output' = p_output \<theta>\<rparr>"

text \<open>
  One example is one step of the optimizer with the gradient of the loss of this example
  alone, as a function of the trainable tensors; whatever gradient was stored before is
  dropped. When the loss cannot be computed there is no step.
\<close>

definition train_example ::
  "((params \<Rightarrow> real) \<Rightarrow> params \<Rightarrow> 'g) \<Rightarrow> ('s \<Rightarrow> params \<Rightarrow> 'g \<Rightarrow> 's \<times> params) \<Rightarrow>
   int list \<times> int \<Rightarrow> ('g, 's) trainer \<Rightarrow> error option \<times> ('g, 's) trainer"
where
  "train_example autograd update ex st =
     (case example_loss (model st) ex of
        Inl e \<Rightarrow> (Some e, st\<lparr>grad := None\<rparr>)
      | Inr l \<Rightarrow>
          (let \<theta> = \<lparr>p_embedding = embedding (model st), p_blocks = transformer_blocks (model st),
                    p_output = output' (model st)\<rparr>;
               g = autograd
                     (\<lambda>\<theta>'. case example_loss (with_parameters (model st) \<theta>') ex of
                              Inl e \<Rightarrow> 0 | Inr l' \<Rightarrow> l') \<theta>;
               r = update (optimizer st) \<theta> g
           in (None, \<lparr>model = with_parameters (model st) (snd r), grad = Some g,
                      optimizer = fst r, loss = Some l, step_calls = step_calls st + 1\<rparr>)))"

subsection \<open>Example layers and inputs\<close>

text \<open>
  Concrete parameters used to instantiate the theorems: a linear layer of zeros, the identity
  layer, and the attention module whose scores are all 0 and whose values are the input.
\<close>

definition zero_linear :: "nat \<Rightarrow> nat \<Rightarrow> Linear" where
  "zero_linear n m = \<lparr>weight = \<lparr>nrow = m, ncol = n, cell = (\<lambda>i j. 0)\<rparr>, bias = (\<lambda>j. 0)\<rparr>"

definition identity_linear :: "nat \<Rightarrow> Linear" where
  "identity_linear n =
     \<lparr>weight = \<lparr>nrow = n, ncol = n, cell = (\<lambda>i j. if i = j then 1 else 0)\<rparr>, bias = (\<lambda>j. 0)\<rparr>"

definition uniform_attention :: "nat \<Rightarrow> SelfAttention" where
  "uniform_attention D =
     \<lparr>query = zero_linear D D, key = zero_linear D D, value' = identity_linear D\<rparr>"

definition rows :: "real list list \<Rightarrow> nat \<Rightarrow> tensor" where
  "rows xs D = \<lparr>nrow = length xs, ncol = D, cell = (\<lambda>i j. xs ! i ! j)\<rparr>"

definition swap01 :: "nat \<Rightarrow> nat" where
  "swap01 i = (if i = 0 then 1 else if i = 1 then 0 else i)"

definition unit_norm :: "nat \<Rightarrow> LayerNorm" where
  "unit_norm D =
     \<lparr>normalized_shape = D, eps = 1 / 100000, ln_weight = (\<lambda>c. 1), ln_bias = (\<lambda>c. 0)\<rparr>"

definition example_block :: TransformerBlock where
  "example_block =
     \<lparr>attention_layer = uniform_attention 1,
      feed_forward_0 = zero_linear 1 1, feed_forward_2 = zero_linear 1 1,
      norm1 = unit_norm 1, norm2 = (unit_norm 1)\<lparr>ln_bias := (\<lambda>c. 7)\<rparr>\<rparr>"

text \<open>The vocabulary of the notebook.\<close>

definition notebook_vocab :: dict where
  "notebook_vocab = [(str_of ''hello'', 0), (str_of ''world'', 1), (str_of ''how'', 2),
            (str_of ''are'', 3), (str_of ''you'', 4), (str_of ''<UNK>'', 5)]"

text \<open>
  A model of one block over a vocabulary of three words, with two channels; its output layer
  gives the logits \<open>[1, 3, 3]\<close> at every position.
\<close>

definition example_block2 :: TransformerBlock where
  "example_block2 =
     \<lparr>attention_layer = uniform_attention 2,
      feed_forward_0 = zero_linear 2 1, feed_forward_2 = zero_linear 1 2,
      norm1 = unit_norm 2, norm2 = unit_norm 2\<rparr>"

definition example_output :: Linear where
  "example_output =
     \<lparr>weight = \<lparr>nrow = 3, ncol = 2, cell = (\<lambda>i j. 0)\<rparr>, bias = (\<lambda>j. [1, 3, 3] ! j)\<rparr>"

definition example_model :: SimpleLLM where
  "example_model =
     \<lparr>embedding = rows [[0, 0], [1, 1], [2, 2]] 2,
      positional_encoding = \<lparr>embedding_dim = 2, pe = sinusoid_table 2 5000\<rparr>,
      transformer_blocks = [example_block2],
      output' = example_output\<rparr>"

text \<open>
  A trainer on the example model, with stand-ins for the library: the gradient is a real
  number, the optimizer counts its calls and shifts the biases of the output layer.
\<close>

definition example_autograd :: "(params \<Rightarrow> real) \<Rightarrow> params \<Rightarrow> real" where
  "example_autograd f \<theta> = f \<theta>"

definition example_update :: "nat \<Rightarrow> params \<Rightarrow> real \<Rightarrow> nat \<times> params" where
  "example_update s \<theta> g =
     (s + 1, \<theta>\<lparr>p_output := (p_output \<theta>)\<lparr>bias := (\<lambda>j. bias (p_output \<theta>) j - g / 1000)\<rparr>\<rparr>)"

definition example_trainer :: "(real, nat) trainer" where
  "example_trainer =
     \<lparr>model = example_model, grad = None, optimizer = 0, loss = None, step_calls = 0\<rparr>"

section \<open>Properties of SelfAttention\<close>

lemma SelfAttention_locals_Inr:
  assumes "SelfAttention_ok (ncol x) a"
  shows "SelfAttention_locals a x =
     Inr (\<lparr>nrow = nrow x, ncol = nrow x, cell = softmax_weight a x\<rparr>,
          \<lparr>nrow = nrow x, ncol = ncol x, cell = attention a x\<rparr>)"
  using assms
  by (simp add: SelfAttention_locals_def SelfAttention_ok_def Linear_ok_def Linear_forward_def
      bmm_def transpose12_def softmax_def div_scalar_def Let_def in_features_def
      out_features_def project_def scaled_score_def softmax_weight_def attention_def
      fun_eq_iff)

lemma softmax_weight_nonneg: "0 \<le> softmax_weight a x q k"
  by (simp add: softmax_weight_def sum_nonneg)

lemma softmax_weight_sum:
  assumes "0 < nrow x"
  shows "(\<Sum>k<nrow x. softmax_weight a x q k) = 1"
proof -
  have pos: "0 < (\<Sum>j<nrow x. exp (scaled_score a x q j))"
    using assms by (intro sum_pos) auto
  have "(\<Sum>k<nrow x. softmax_weight a x q k) =
        (\<Sum>k<nrow x. exp (scaled_score a x q k)) / (\<Sum>j<nrow x. exp (scaled_score a x q j))"
    by (simp only: softmax_weight_def sum_divide_distrib)
  also have "\<dots> = 1"
    using pos by simp
  finally show ?thesis .
qed


lemma project_permute: "project l (permute p x) i c = project l x (p i) c"
  by (simp add: project_def permute_def)

lemma scaled_score_permute:
  "scaled_score a (permute p x) q k = scaled_score a x (p q) (p k)"
  by (simp add: scaled_score_def project_permute) (simp add: permute_def)

lemma softmax_weight_permute:
  assumes "bij_betw p {..<nrow x} {..<nrow x}"
  shows "softmax_weight a (permute p x) q k = softmax_weight a x (p q) (p k)"
proof -
  have "(\<Sum>j<nrow x. exp (scaled_score a x (p q) (p j))) =
        (\<Sum>j<nrow x. exp (scaled_score a x (p q) j))"
    using assms by (rule sum.reindex_bij_betw)
  moreover have "nrow (permute p x) = nrow x"
    by (simp add: permute_def)
  ultimately show ?thesis
    by (simp add: softmax_weight_def scaled_score_permute)
qed

lemma attention_permute:
  assumes "bij_betw p {..<nrow x} {..<nrow x}"
  shows "attention a (permute p x) q c = attention a x (p q) c"
proof -
  have "(\<Sum>k<nrow x. softmax_weight a x (p q) (p k) * project (value' a) x (p k) c) =
        (\<Sum>k<nrow x. softmax_weight a x (p q) k * project (value' a) x k c)"
    using assms
    by (rule sum.reindex_bij_betw [where g = "\<lambda>k. softmax_weight a x (p q) k * project (value' a) x k c"])
  moreover have "nrow (permute p x) = nrow x"
    by (simp add: permute_def)
  ultimately show ?thesis
    by (simp add: attention_def softmax_weight_permute [OF assms] project_permute)
qed

lemma uniform_attention_ok: "SelfAttention_ok D (uniform_attention D)"
  by (simp add: SelfAttention_ok_def Linear_ok_def uniform_attention_def zero_linear_def
      identity_linear_def in_features_def out_features_def)

lemma uniform_score: "scaled_score (uniform_attention D) x q k = 0"
  by (simp add: scaled_score_def project_def uniform_attention_def zero_linear_def)

lemma uniform_weight: "softmax_weight (uniform_attention D) x q k = 1 / real (nrow x)"
  by (simp add: softmax_weight_def uniform_score)

lemma uniform_value:
  assumes "c < ncol x"
  shows "project (value' (uniform_attention (ncol x))) x k c = cell x k c"
proof -
  have "(\<Sum>j<ncol x. cell x k j * (if c = j then 1 else 0)) =
        (\<Sum>j<ncol x. if c = j then cell x k j else 0)"
    by (intro sum.cong) auto
  also have "\<dots> = cell x k c"
    using assms by (simp add: sum.delta')
  finally show ?thesis
    by (simp add: project_def uniform_attention_def identity_linear_def)
qed

lemma uniform_attention_value:
  assumes "c < ncol x"
  shows "attention (uniform_attention (ncol x)) x q c = (\<Sum>k<nrow x. cell x k c) / real (nrow x)"
  using assms by (simp add: attention_def uniform_weight uniform_value sum_divide_distrib)

text \<open>
  Claim C1. For a module built for dimension \<open>D > 0\<close> and every input \<open>x\<close> of \<open>L\<close> rows of
  \<open>D\<close> channels, \<^verbatim>\<open>SelfAttention.forward\<close> returns the \<open>L \<times> D\<close> tensor
  \<open>softmax(Q K\<^sup>T / sqrt D) V\<close>, where \<open>Q\<close>, \<open>K\<close>, \<open>V\<close> are the three linear projections of
  \<open>x\<close> and the weighted sum runs over all \<open>L\<close> key positions (no mask). Moreover, for every
  query position \<open>q\<close> and every position \<open>k\<close> (later ones included) there are parameters
  and an input differing from \<open>x\<close> at position \<open>k\<close> only for which the output at \<open>q\<close> differs.
\<close>

theorem SelfAttention_forward_formula:
  assumes "SelfAttention_ok (ncol x) a" and "0 < ncol x"
  shows "SelfAttention_forward a x = Inr \<lparr>nrow = nrow x, ncol = ncol x, cell = attention a x\<rparr> \<and>
    (\<forall>q<nrow x. \<forall>k<nrow x. \<exists>a' x' y y'.
        SelfAttention_ok (ncol x) a' \<and> nrow x' = nrow x \<and> ncol x' = ncol x \<and>
        (\<forall>i. i \<noteq> k \<longrightarrow> cell x' i = cell x i) \<and>
        SelfAttention_forward a' x = Inr y \<and> SelfAttention_forward a' x' = Inr y' \<and>
        cell y q 0 \<noteq> cell y' q 0)"
proof (intro conjI allI impI)
  show "SelfAttention_forward a x = Inr \<lparr>nrow = nrow x, ncol = ncol x, cell = attention a x\<rparr>"
    using assms(1) by (simp add: SelfAttention_forward_def SelfAttention_locals_Inr)
next
  fix q k assume q: "q < nrow x" and k: "k < nrow x"
  define L where "L = nrow x"
  define a' where "a' = uniform_attention (ncol x)"
  define x' where "x' = x\<lparr>cell := (\<lambda>i c. if i = k \<and> c = 0 then cell x k 0 + real L else cell x i c)\<rparr>"
  have ok: "SelfAttention_ok (ncol x) a'" "SelfAttention_ok (ncol x') a'"
    by (simp_all add: a'_def x'_def uniform_attention_ok)
  have shape: "nrow x' = nrow x" "ncol x' = ncol x"
    by (simp_all add: x'_def)
  have same: "\<forall>i. i \<noteq> k \<longrightarrow> cell x' i = cell x i"
    by (simp add: x'_def fun_eq_iff)
  have y: "SelfAttention_forward a' x = Inr \<lparr>nrow = nrow x, ncol = ncol x, cell = attention a' x\<rparr>"
    using ok(1) by (simp add: SelfAttention_forward_def SelfAttention_locals_Inr)
  have y': "SelfAttention_forward a' x' = Inr \<lparr>nrow = nrow x', ncol = ncol x', cell = attention a' x'\<rparr>"
    using ok(2) by (simp add: SelfAttention_forward_def SelfAttention_locals_Inr)
  have Lpos: "0 < L" using q by (simp add: L_def)
  have v: "attention a' x q 0 = (\<Sum>j<L. cell x j 0) / real L"
    using assms(2) by (simp add: a'_def uniform_attention_value L_def)
  have "attention a' x' q 0 = (\<Sum>j<nrow x'. cell x' j 0) / real (nrow x')"
    using assms(2) uniform_attention_value [of 0 x' q] by (simp add: a'_def shape)
  also have "(\<Sum>j<nrow x'. cell x' j 0) = (\<Sum>j<L. cell x j 0 + (if j = k then real L else 0))"
    by (intro sum.cong) (auto simp: x'_def L_def)
  also have "\<dots> = (\<Sum>j<L. cell x j 0) + real L"
    using k by (simp add: sum.distrib L_def)
  finally have v': "attention a' x' q 0 = attention a' x q 0 + 1"
    using Lpos by (simp add: v shape L_def add_divide_distrib)
  have "cell \<lparr>nrow = nrow x, ncol = ncol x, cell = attention a' x\<rparr> q 0 \<noteq>
        cell \<lparr>nrow = nrow x', ncol = ncol x', cell = attention a' x'\<rparr> q 0"
    by (simp add: v')
  with ok(1) shape same y y'
  show "\<exists>a' x' y y'.
        SelfAttention_ok (ncol x) a' \<and> nrow x' = nrow x \<and> ncol x' = ncol x \<and>
        (\<forall>i. i \<noteq> k \<longrightarrow> cell x' i = cell x i) \<and>
        SelfAttention_forward a' x = Inr y \<and> SelfAttention_forward a' x' = Inr y' \<and>
        cell y q 0 \<noteq> cell y' q 0"
    by blast
qed


text \<open>The theorem at the two-token input \<open>[[0], [2]]\<close>, query position 0, later position 1.\<close>

theorem SelfAttention_forward_formula_witness:
  "SelfAttention_ok (ncol (rows [[0], [2]] 1)) (uniform_attention 1) \<and>
   0 < ncol (rows [[0], [2]] 1) \<and>
   (\<exists>y. SelfAttention_forward (uniform_attention 1) (rows [[0], [2]] 1) = Inr y \<and>
        nrow y = 2 \<and> ncol y = 1 \<and> cell y 0 0 = 1 \<and> cell y 1 0 = 1) \<and>
   (\<exists>a' x' y y'. SelfAttention_ok 1 a' \<and> nrow x' = 2 \<and> ncol x' = 1 \<and>
        cell x' 0 = cell (rows [[0], [2]] 1) 0 \<and>
        SelfAttention_forward a' (rows [[0], [2]] 1) = Inr y \<and>
        SelfAttention_forward a' x' = Inr y' \<and> cell y 0 0 \<noteq> cell y' 0 0)"
proof -
  let ?x = "rows [[0], [2]] 1"
  let ?a = "uniform_attention 1"
  have ok: "SelfAttention_ok (ncol ?x) ?a"
    by (simp add: rows_def uniform_attention_ok)
  have pos: "0 < ncol ?x"
    by (simp add: rows_def)
  note th = SelfAttention_forward_formula [OF ok pos]
  have val: "attention ?a ?x 0 0 = 1" "attention ?a ?x 1 0 = 1"
    using uniform_attention_value [of 0 ?x 0] uniform_attention_value [of 0 ?x 1]
    by (simp_all add: rows_def lessThan_Suc numeral_2_eq_2)
  have fst: "\<exists>y. SelfAttention_forward ?a ?x = Inr y \<and>
        nrow y = 2 \<and> ncol y = 1 \<and> cell y 0 0 = 1 \<and> cell y 1 0 = 1"
    using th val by (simp add: rows_def)
  have "0 < nrow ?x" "1 < nrow ?x"
    by (simp_all add: rows_def)
  with th obtain a' x' y y' where
      d: "SelfAttention_ok (ncol ?x) a'" "nrow x' = nrow ?x" "ncol x' = ncol ?x"
         "\<forall>i. i \<noteq> 1 \<longrightarrow> cell x' i = cell ?x i"
         "SelfAttention_forward a' ?x = Inr y" "SelfAttention_forward a' x' = Inr y'"
         "cell y 0 0 \<noteq> cell y' 0 0"
    by meson
  have e: "SelfAttention_ok 1 a'" "nrow x' = 2" "ncol x' = 1" "cell x' 0 = cell ?x 0"
    using d(1-4) by (simp_all add: rows_def)
  have snd: "\<exists>a' x' y y'. SelfAttention_ok 1 a' \<and> nrow x' = 2 \<and> ncol x' = 1 \<and>
        cell x' 0 = cell ?x 0 \<and>
        SelfAttention_forward a' ?x = Inr y \<and>
        SelfAttention_forward a' x' = Inr y' \<and> cell y 0 0 \<noteq> cell y' 0 0"
    using e d(5-7) by (intro exI [of _ a'] exI [of _ x'] exI [of _ y] exI [of _ y']) simp
  show ?thesis
    using ok pos fst snd by (intro conjI)
qed

text \<open>
  Claim C5. For every input of \<open>L\<close> rows and every query position \<open>q < L\<close>, the \<open>L\<close>
  attention weights of row \<open>q\<close> computed inside \<^verbatim>\<open>SelfAttention.forward\<close> are non-negative
  and sum to 1.
\<close>

theorem attention_weights_distribution:
  assumes "SelfAttention_ok (ncol x) a" and "0 < ncol x" and "q < nrow x"
  shows "\<exists>w. SelfAttention_weights a x = Inr w \<and> nrow w = nrow x \<and> ncol w = nrow x \<and>
           (\<forall>k<nrow x. 0 \<le> cell w q k) \<and> (\<Sum>k<nrow x. cell w q k) = 1"
proof -
  have "SelfAttention_weights a x = Inr \<lparr>nrow = nrow x, ncol = nrow x, cell = softmax_weight a x\<rparr>"
    using assms(1) by (simp add: SelfAttention_weights_def SelfAttention_locals_Inr)
  moreover have "(\<Sum>k<nrow x. softmax_weight a x q k) = 1"
    using assms(3) by (intro softmax_weight_sum) simp
  ultimately show ?thesis
    by (simp add: softmax_weight_nonneg)
qed

text \<open>The theorem at the two-token input \<open>[[0], [2]]\<close> and query position 0.\<close>

theorem attention_weights_distribution_witness:
  "SelfAttention_ok (ncol (rows [[0], [2]] 1)) (uniform_attention 1) \<and>
   0 < ncol (rows [[0], [2]] 1) \<and> 0 < nrow (rows [[0], [2]] 1) \<and>
   (\<exists>w. SelfAttention_weights (uniform_attention 1) (rows [[0], [2]] 1) = Inr w \<and>
        nrow w = 2 \<and> ncol w = 2 \<and> 0 \<le> cell w 0 0 \<and> 0 \<le> cell w 0 1 \<and>
        cell w 0 0 + cell w 0 1 = 1)"
proof -
  let ?x = "rows [[0], [2]] 1"
  let ?a = "uniform_attention 1"
  have ok: "SelfAttention_ok (ncol ?x) ?a"
    by (simp add: rows_def uniform_attention_ok)
  have pos: "0 < ncol ?x" "0 < nrow ?x"
    by (simp_all add: rows_def)
  from attention_weights_distribution [OF ok pos]
  obtain w where w: "SelfAttention_weights ?a ?x = Inr w" "nrow w = nrow ?x" "ncol w = nrow ?x"
      "\<forall>k<nrow ?x. 0 \<le> cell w 0 k" "(\<Sum>k<nrow ?x. cell w 0 k) = 1"
    by blast
  have "nrow w = 2" "ncol w = 2"
    using w(2,3) by (simp_all add: rows_def)
  moreover have "0 \<le> cell w 0 0" "0 \<le> cell w 0 1"
    using w(4) by (simp_all add: rows_def)
  moreover have "cell w 0 0 + cell w 0 1 = 1"
    using w(5) by (simp add: rows_def numeral_2_eq_2)
  ultimately show ?thesis
    using ok pos w(1) by (intro conjI exI [of _ w]) simp_all
qed

section \<open>Properties of PositionalEncoding\<close>

lemma div_term_powr: "0 < D \<Longrightarrow> real p * div_term D i = real p / 10000 powr (real (2 * i) / real D)"
proof -
  assume "0 < D"
  have "div_term D i = 10000 powr (- (real (2 * i) / real D))"
    by (simp add: div_term_def powr_def mult.commute)
  then show ?thesis
    by (simp add: powr_minus divide_inverse)
qed

lemma PositionalEncoding_init_Inr:
  assumes "PositionalEncoding_init D M = Inr m"
  shows "0 < D" and "pe m = sinusoid_table D M"
  using assms by (auto simp: PositionalEncoding_init_def split: if_splits)

text \<open>
  Claim C3. For an encoder built for dimension \<open>D\<close> and an input of \<open>L \<le> max_seq_len\<close> rows of
  \<open>D\<close> channels, the output has the shape of the input, the output minus the input at
  position \<open>p\<close> is row \<open>p\<close> of the table, and the table has
  \<open>sin (p / 10000 powr (2 i / D))\<close> in channel \<open>2 i\<close> and the cosine of the same angle in
  channel \<open>2 i + 1\<close>.
\<close>

theorem PositionalEncoding_adds_table:
  assumes "PositionalEncoding_init D max_seq_len = Inr m"
    and "nrow x = L" and "ncol x = D" and "L \<le> max_seq_len"
  shows "\<exists>y. PositionalEncoding_forward m x = Inr y \<and> nrow y = L \<and> ncol y = D \<and>
      (\<forall>p<L. \<forall>c<D. cell y p c - cell x p c = cell (pe m) p c) \<and>
      (\<forall>p<max_seq_len. \<forall>i.
          (2 * i < D \<longrightarrow>
             cell (pe m) p (2 * i) = sin (real p / 10000 powr (real (2 * i) / real D))) \<and>
          (2 * i + 1 < D \<longrightarrow>
             cell (pe m) p (2 * i + 1) = cos (real p / 10000 powr (real (2 * i) / real D))))"
proof -
  note init = PositionalEncoding_init_Inr [OF assms(1)]
  have fw: "PositionalEncoding_forward m x =
     Inr \<lparr>nrow = L, ncol = D,
          cell = (\<lambda>i j. cell x (expand_index L i) (expand_index D j)
                       + cell (pe m) (expand_index L i) (expand_index D j))\<rparr>"
    using assms(2-4)
    by (simp add: PositionalEncoding_forward_def add_broadcast_def slice_rows_def
        broadcast_size_def init(2) sinusoid_table_def min_def)
  have idx: "expand_index L p = p" if "p < L" for p
    using that by (auto simp: expand_index_def)
  have idc: "expand_index D c = c" if "c < D" for c
    using that by (auto simp: expand_index_def)
  have tab: "cell (pe m) p (2 * i) = sin (real p / 10000 powr (real (2 * i) / real D))"
            "cell (pe m) p (2 * i + 1) = cos (real p / 10000 powr (real (2 * i) / real D))" for p i
    using div_term_powr [OF init(1), of p i]
    by (simp_all add: init(2) sinusoid_table_def)
  show ?thesis
    using tab by (simp add: fw idx idc)
qed

text \<open>
  The theorem at dimension 2, the default table length 5000 and a two-row input.
\<close>

theorem PositionalEncoding_adds_table_witness:
  "PositionalEncoding_init 2 5000 = Inr \<lparr>embedding_dim = 2, pe = sinusoid_table 2 5000\<rparr> \<and>
   nrow (rows [[1, 2], [3, 4]] 2) = 2 \<and> ncol (rows [[1, 2], [3, 4]] 2) = 2 \<and> (2::nat) \<le> 5000 \<and>
   (\<exists>y. PositionalEncoding_forward \<lparr>embedding_dim = 2, pe = sinusoid_table 2 5000\<rparr>
          (rows [[1, 2], [3, 4]] 2) = Inr y \<and> nrow y = 2 \<and> ncol y = 2 \<and>
        cell y 1 0 - 3 = sin 1 \<and> cell y 1 1 - 4 = cos 1)"
proof -
  let ?m = "\<lparr>embedding_dim = 2, pe = sinusoid_table 2 5000\<rparr>"
  let ?x = "rows [[1, 2], [3, 4]] 2"
  have init: "PositionalEncoding_init 2 5000 = Inr ?m"
    by (simp add: PositionalEncoding_init_def)
  have shape: "nrow ?x = 2" "ncol ?x = 2" "(2::nat) \<le> 5000"
    by (simp_all add: rows_def)
  from PositionalEncoding_adds_table [OF init shape]
  obtain y where y: "PositionalEncoding_forward ?m ?x = Inr y" "nrow y = 2" "ncol y = 2"
      "\<forall>p<2. \<forall>c<2. cell y p c - cell ?x p c = cell (pe ?m) p c"
      "\<forall>p<5000. \<forall>i.
          (2 * i < 2 \<longrightarrow>
             cell (pe ?m) p (2 * i) = sin (real p / 10000 powr (real (2 * i) / real 2))) \<and>
          (2 * i + 1 < 2 \<longrightarrow>
             cell (pe ?m) p (2 * i + 1) = cos (real p / 10000 powr (real (2 * i) / real 2)))"
    by blast
  have "cell y 1 0 - cell ?x 1 0 = cell (pe ?m) 1 0" "cell y 1 1 - cell ?x 1 1 = cell (pe ?m) 1 1"
    using y(4) by simp_all
  moreover have "cell (pe ?m) 1 0 = sin 1" "cell (pe ?m) 1 1 = cos 1"
    using y(5) [rule_format, of 1 0] by simp_all
  ultimately have "cell y 1 0 - 3 = sin 1" "cell y 1 1 - 4 = cos 1"
    by (simp_all add: rows_def)
  then show ?thesis
    using init shape y(1-3) by (intro conjI exI [of _ y])
qed

text \<open>
  Claim C7, as amended. When the table has at least two rows (the default is 5000) and the
  input is longer than the table, the forward call raises the size-mismatch error of the
  addition and returns nothing.
\<close>

theorem PositionalEncoding_too_long_raises:
  assumes "PositionalEncoding_init D max_seq_len = Inr m"
    and "2 \<le> max_seq_len" and "max_seq_len < nrow x"
  shows "PositionalEncoding_forward m x = Inl RuntimeError"
  using assms(2,3) PositionalEncoding_init_Inr(2) [OF assms(1)]
  by (simp add: PositionalEncoding_forward_def add_broadcast_def slice_rows_def
      broadcast_size_def sinusoid_table_def min_def)

text \<open>
  Claim C7 as stated fails for a table of one row: an input of two rows is longer than the
  table, yet the call returns a result, in which the row of position 0 is added at position
  1 as well (channel 1 of position 1 is \<open>0 + cos 0 = 1\<close>).
\<close>

theorem PositionalEncoding_single_row_broadcast:
  "PositionalEncoding_init 2 1 = Inr \<lparr>embedding_dim = 2, pe = sinusoid_table 2 1\<rparr> \<and>
   1 < nrow (rows [[0, 0], [0, 0]] 2) \<and>
   PositionalEncoding_forward \<lparr>embedding_dim = 2, pe = sinusoid_table 2 1\<rparr> (rows [[0, 0], [0, 0]] 2)
     \<noteq> Inl RuntimeError \<and>
   \<not> isl (PositionalEncoding_forward \<lparr>embedding_dim = 2, pe = sinusoid_table 2 1\<rparr>
            (rows [[0, 0], [0, 0]] 2)) \<and>
   cell (projr (PositionalEncoding_forward \<lparr>embedding_dim = 2, pe = sinusoid_table 2 1\<rparr>
            (rows [[0, 0], [0, 0]] 2))) 1 1 = 1"
  by (simp add: PositionalEncoding_init_def PositionalEncoding_forward_def add_broadcast_def
      slice_rows_def broadcast_size_def sinusoid_table_def rows_def expand_index_def)

text \<open>
  The theorem at the default table length 5000 and an input of 5001 rows.
\<close>

theorem PositionalEncoding_too_long_raises_witness:
  "PositionalEncoding_init 2 5000 = Inr \<lparr>embedding_dim = 2, pe = sinusoid_table 2 5000\<rparr> \<and>
   (2::nat) \<le> 5000 \<and> 5000 < nrow \<lparr>nrow = 5001, ncol = 2, cell = (\<lambda>i j. 0)\<rparr> \<and>
   PositionalEncoding_forward \<lparr>embedding_dim = 2, pe = sinusoid_table 2 5000\<rparr>
     \<lparr>nrow = 5001, ncol = 2, cell = (\<lambda>i j. 0)\<rparr> = Inl RuntimeError"
proof -
  have init: "PositionalEncoding_init 2 5000 = Inr \<lparr>embedding_dim = 2, pe = sinusoid_table 2 5000\<rparr>"
    by (simp add: PositionalEncoding_init_def)
  have len: "(2::nat) \<le> 5000" "5000 < nrow \<lparr>nrow = 5001, ncol = 2, cell = (\<lambda>i j. 0)\<rparr>"
    by simp_all
  from PositionalEncoding_too_long_raises [OF init len] init len
  show ?thesis by (intro conjI)
qed

section \<open>Properties of TransformerBlock\<close>

lemma mean_normalized:
  assumes "0 < D"
  shows "mean D (normalized e D v) = 0"
proof -
  have "(\<Sum>c<D. v c - mean D v) = 0"
    using assms by (simp add: sum_subtractf mean_def)
  then have "(\<Sum>c<D. (v c - mean D v) / sqrt (variance D v + e)) = 0"
    by (simp flip: sum_divide_distrib)
  then show ?thesis
    by (simp add: mean_def normalized_def)
qed

lemma variance_nonneg: "0 \<le> variance D v"
  by (simp add: variance_def sum_nonneg)

lemma variance_normalized:
  assumes "0 < D" and "0 < e"
  shows "variance D (normalized e D v) = variance D v / (variance D v + e)"
proof -
  have pos: "0 < variance D v + e"
    using variance_nonneg [of D v] assms(2) by linarith
  have "(\<Sum>c<D. (normalized e D v c - mean D (normalized e D v))\<^sup>2) =
        (\<Sum>c<D. (v c - mean D v)\<^sup>2 / (variance D v + e))"
    using pos by (simp add: mean_normalized [OF assms(1)] normalized_def power_divide)
  also have "\<dots> = (\<Sum>c<D. (v c - mean D v)\<^sup>2) / (variance D v + e)"
    by (simp add: sum_divide_distrib)
  finally show ?thesis
    by (simp add: variance_def [of D "normalized e D v"]) (simp add: variance_def)
qed

lemma layer_norm_cong:
  assumes "\<And>k. k < normalized_shape n \<Longrightarrow> v k = w k" and "c < normalized_shape n"
  shows "layer_norm n v c = layer_norm n w c"
proof -
  have m: "mean (normalized_shape n) v = mean (normalized_shape n) w"
    using assms(1) by (simp add: mean_def)
  have "variance (normalized_shape n) v = variance (normalized_shape n) w"
    using assms(1) by (simp add: variance_def m)
  then show ?thesis
    using assms by (simp add: layer_norm_def normalized_def m)
qed

lemma expand_index_in_range: "i < n \<Longrightarrow> expand_index n i = i"
  by (auto simp: expand_index_def)

lemma TransformerBlock_forward_cells:
  assumes ok: "TransformerBlock_ok D H b" and shape: "nrow x = L" "ncol x = D"
  shows "\<exists>x2. TransformerBlock_forward b x = Inr x2 \<and> nrow x2 = L \<and> ncol x2 = D \<and>
           (\<forall>p<L. \<forall>c<D. cell x2 p c = block_x2 b x p c)"
proof -
  let ?a = "attention_layer b"
  from ok have a_ok: "SelfAttention_ok (ncol x) ?a"
    and f0: "in_features (feed_forward_0 b) = D" "out_features (feed_forward_0 b) = H"
    and f2: "in_features (feed_forward_2 b) = H" "out_features (feed_forward_2 b) = D"
    and n1: "normalized_shape (norm1 b) = D" and n2: "normalized_shape (norm2 b) = D"
    by (simp_all add: TransformerBlock_ok_def Linear_ok_def LayerNorm_ok_def shape)
  define attended where "attended = \<lparr>nrow = L, ncol = D, cell = attention ?a x\<rparr>"
  have 1: "SelfAttention_forward ?a x = Inr attended"
    using a_ok by (simp add: SelfAttention_forward_def SelfAttention_locals_Inr attended_def shape)
  define s1 where "s1 = \<lparr>nrow = L, ncol = D,
      cell = (\<lambda>i j. cell x (expand_index L i) (expand_index D j)
                   + attention ?a x (expand_index L i) (expand_index D j))\<rparr>"
  have 2: "add_broadcast x attended = Inr s1"
    by (simp add: add_broadcast_def broadcast_size_def attended_def s1_def shape)
  define x1 where "x1 = s1\<lparr>cell := (\<lambda>i. layer_norm (norm1 b) (cell s1 i))\<rparr>"
  have 3: "LayerNorm_forward (norm1 b) s1 = Inr x1"
    by (simp add: LayerNorm_forward_def x1_def s1_def n1)
  define fw where "fw = \<lparr>nrow = L, ncol = D,
      cell = (\<lambda>i j. (\<Sum>h<H. max 0 ((\<Sum>k<D. cell x1 i k * cell (weight (feed_forward_0 b)) h k)
                                    + bias (feed_forward_0 b) h)
                           * cell (weight (feed_forward_2 b)) j h)
                   + bias (feed_forward_2 b) j)\<rparr>"
  have 4: "feed_forward b x1 = Inr fw"
    by (simp add: feed_forward_def Linear_forward_def relu_def f0 f2 fw_def x1_def s1_def)
  define s2 where "s2 = \<lparr>nrow = L, ncol = D,
      cell = (\<lambda>i j. cell x1 (expand_index L i) (expand_index D j)
                   + cell fw (expand_index L i) (expand_index D j))\<rparr>"
  have 5: "add_broadcast x1 fw = Inr s2"
    by (simp add: add_broadcast_def broadcast_size_def fw_def x1_def s1_def s2_def)
  define x2 where "x2 = s2\<lparr>cell := (\<lambda>i. layer_norm (norm2 b) (cell s2 i))\<rparr>"
  have 6: "LayerNorm_forward (norm2 b) s2 = Inr x2"
    by (simp add: LayerNorm_forward_def x2_def s2_def n2)
  have fwd: "TransformerBlock_forward b x = Inr x2"
    by (simp add: TransformerBlock_forward_def 1 2 3 4 5 6)
  have shape2: "nrow x2 = L" "ncol x2 = D"
    by (simp_all add: x2_def s2_def)
  have c1: "cell x1 p c = block_x1 b x p c" if "p < L" "c < D" for p c
  proof -
    have "cell s1 p k = cell x p k + attention ?a x p k" if "k < D" for k
      using that \<open>p < L\<close> by (simp add: s1_def expand_index_in_range)
    then have "layer_norm (norm1 b) (cell s1 p) c =
               layer_norm (norm1 b) (\<lambda>k. cell x p k + attention ?a x p k) c"
      using \<open>c < D\<close> by (intro layer_norm_cong) (simp_all add: n1)
    then show ?thesis
      by (simp add: x1_def block_x1_def)
  qed
  have cf: "cell fw p c = block_forwarded b x p c" if "p < L" "c < D" for p c
    using that by (simp add: fw_def block_forwarded_def f0 shape c1)
  have c2: "cell x2 p c = block_x2 b x p c" if "p < L" "c < D" for p c
  proof -
    have "cell s2 p k = block_x1 b x p k + block_forwarded b x p k" if "k < D" for k
      using that \<open>p < L\<close> by (simp add: s2_def expand_index_in_range c1 cf)
    then have "layer_norm (norm2 b) (cell s2 p) c =
               layer_norm (norm2 b) (\<lambda>k. block_x1 b x p k + block_forwarded b x p k) c"
      using \<open>c < D\<close> by (intro layer_norm_cong) (simp_all add: n2)
    then show ?thesis
      by (simp add: x2_def block_x2_def)
  qed
  show ?thesis
    using fwd shape2 c2 by (intro exI [of _ x2]) simp
qed


text \<open>
  Claim C4 as stated fails in its parenthesis on unit variance: a layer norm as the block
  builds it (scale 1 and shift 0, as at construction) maps the token \<open>[1, 1]\<close> to a token of
  variance 0, not 1.
\<close>

theorem LayerNorm_constant_token:
  "LayerNorm_ok 2 (unit_norm 2) \<and>
   \<not> isl (LayerNorm_forward (unit_norm 2) (rows [[1, 1]] 2)) \<and>
   variance 2 (cell (projr (LayerNorm_forward (unit_norm 2) (rows [[1, 1]] 2))) 0) = 0 \<and>
   variance 2 (cell (projr (LayerNorm_forward (unit_norm 2) (rows [[1, 1]] 2))) 0) \<noteq> 1"
  by (simp add: LayerNorm_ok_def unit_norm_def LayerNorm_forward_def rows_def layer_norm_def
      normalized_def mean_def variance_def numeral_2_eq_2)

text \<open>
  Claim C4, as amended. For a block built for dimensions \<open>D > 0\<close> and \<open>H\<close> and every input of
  \<open>L\<close> rows of \<open>D\<close> channels, \<^verbatim>\<open>TransformerBlock.forward\<close> returns \<open>x2\<close> of the same shape with
  \<open>x1 = LayerNorm (x + SelfAttention x)\<close>, \<open>forwarded = Linear (relu (Linear x1))\<close> and
  \<open>x2 = LayerNorm (x1 + forwarded)\<close>. Each of the two layer norms works on one token at a time,
  across its \<open>D\<close> channels: the normalised token has mean 0 and variance
  \<open>v / (v + 1e-5)\<close>, where \<open>v\<close> is the variance of the token's channels, and is then scaled
  and shifted per channel.
\<close>

theorem TransformerBlock_forward_formula:
  assumes "TransformerBlock_ok D H b" and "0 < D" and "nrow x = L" and "ncol x = D"
  shows "(\<exists>x2. TransformerBlock_forward b x = Inr x2 \<and> nrow x2 = L \<and> ncol x2 = D \<and>
            (\<forall>p<L. \<forall>c<D. cell x2 p c = block_x2 b x p c)) \<and>
         (\<forall>n\<in>{norm1 b, norm2 b}. \<forall>v.
            (\<forall>c. layer_norm n v c = normalized (1 / 100000) D v c * ln_weight n c + ln_bias n c) \<and>
            mean D (normalized (1 / 100000) D v) = 0 \<and>
            variance D (normalized (1 / 100000) D v) = variance D v / (variance D v + 1 / 100000))"
proof (intro conjI ballI allI)
  show "\<exists>x2. TransformerBlock_forward b x = Inr x2 \<and> nrow x2 = L \<and> ncol x2 = D \<and>
            (\<forall>p<L. \<forall>c<D. cell x2 p c = block_x2 b x p c)"
    using assms(1,3,4) by (rule TransformerBlock_forward_cells)
next
  fix n v c assume "n \<in> {norm1 b, norm2 b}"
  with assms(1) have "LayerNorm_ok D n"
    by (auto simp: TransformerBlock_ok_def)
  then have "normalized_shape n = D" and "eps n = 1 / 100000"
    unfolding LayerNorm_ok_def by blast+
  then show "layer_norm n v c = normalized (1 / 100000) D v c * ln_weight n c + ln_bias n c"
    by (simp only: layer_norm_def)
next
  fix v show "mean D (normalized (1 / 100000) D v) = 0"
    using assms(2) by (rule mean_normalized)
next
  fix v show "variance D (normalized (1 / 100000) D v) = variance D v / (variance D v + 1 / 100000)"
    using assms(2) by (rule variance_normalized) simp
qed

lemma example_block_ok: "TransformerBlock_ok 1 1 example_block"
  by (simp add: TransformerBlock_ok_def example_block_def uniform_attention_ok LayerNorm_ok_def
      unit_norm_def Linear_ok_def zero_linear_def in_features_def out_features_def)

text \<open>
  The theorem at a block of dimensions 1 and 1 whose second layer norm shifts by 7, and the
  two-token input \<open>[[0], [2]]\<close>.
\<close>

theorem TransformerBlock_forward_formula_witness:
  "TransformerBlock_ok 1 1 example_block \<and> (0::nat) < 1 \<and>
   nrow (rows [[0], [2]] 1) = 2 \<and> ncol (rows [[0], [2]] 1) = 1 \<and>
   (\<exists>x2. TransformerBlock_forward example_block (rows [[0], [2]] 1) = Inr x2 \<and>
      nrow x2 = 2 \<and> ncol x2 = 1 \<and> cell x2 1 0 = 7) \<and>
   layer_norm (norm1 example_block) (cell (rows [[0], [2]] 1) 1) 0 =
     normalized (1 / 100000) 1 (cell (rows [[0], [2]] 1) 1) 0
       * ln_weight (norm1 example_block) 0 + ln_bias (norm1 example_block) 0 \<and>
   mean 1 (normalized (1 / 100000) 1 (cell (rows [[0], [2]] 1) 1)) = 0 \<and>
   variance 1 (normalized (1 / 100000) 1 (cell (rows [[0], [2]] 1) 1)) =
     variance 1 (cell (rows [[0], [2]] 1) 1) / (variance 1 (cell (rows [[0], [2]] 1) 1) + 1 / 100000)"
proof -
  let ?x = "rows [[0], [2]] 1"
  have pos: "(0::nat) < 1" by simp
  have shape: "nrow ?x = 2" "ncol ?x = 1"
    by (simp_all add: rows_def)
  note th = TransformerBlock_forward_formula [OF example_block_ok pos shape]
  from th obtain x2 where x2: "TransformerBlock_forward example_block ?x = Inr x2"
      "nrow x2 = 2" "ncol x2 = 1" "\<forall>p<2. \<forall>c<1. cell x2 p c = block_x2 example_block ?x p c"
    by blast
  have "block_x2 example_block ?x 1 0 = 7"
    by (simp add: block_x2_def layer_norm_def normalized_def mean_def example_block_def
        unit_norm_def)
  with x2(4) have v: "cell x2 1 0 = 7"
    by simp
  have n: "norm1 example_block \<in> {norm1 example_block, norm2 example_block}"
    by simp
  note ln = th [THEN conjunct2, rule_format, OF n, of "cell ?x 1"]
  show ?thesis
    using example_block_ok pos shape x2(1-3) v ln
    by (intro conjI exI [of _ x2]) simp_all
qed

section \<open>Properties of the prediction\<close>

lemma argmax_upto_le: "argmax_upto v n \<le> n"
  by (induction n) (auto simp: Let_def)

lemma argmax_upto_max: "j \<le> n \<Longrightarrow> v j \<le> v (argmax_upto v n)"
proof (induction n)
  case 0
  then show ?case by simp
next
  case (Suc n)
  show ?case
  proof (cases "j = Suc n")
    case True
    then show ?thesis by (simp add: Let_def)
  next
    case False
    with Suc.prems have "j \<le> n" by simp
    then have "v j \<le> v (argmax_upto v n)" by (rule Suc.IH)
    then show ?thesis by (simp add: Let_def)
  qed
qed

lemma argmax_upto_first: "j < argmax_upto v n \<Longrightarrow> v j < v (argmax_upto v n)"
proof (induction n)
  case 0
  then show ?case by simp
next
  case (Suc n)
  show ?case
  proof (cases "v (argmax_upto v n) < v (Suc n)")
    case True
    with Suc.prems have "j \<le> n" by (simp add: Let_def)
    then have "v j \<le> v (argmax_upto v n)" by (rule argmax_upto_max)
    with True show ?thesis by (simp add: Let_def)
  next
    case False
    with Suc show ?thesis by (simp add: Let_def)
  qed
qed

lemma PositionalEncoding_forward_shape:
  assumes "PositionalEncoding_init D M = Inr m" and "nrow x = L" and "ncol x = D" and "L \<le> M"
  shows "\<exists>y. PositionalEncoding_forward m x = Inr y \<and> nrow y = L \<and> ncol y = D"
  using assms(2-4) PositionalEncoding_init_Inr(2) [OF assms(1)]
  by (simp add: PositionalEncoding_forward_def add_broadcast_def slice_rows_def
      broadcast_size_def sinusoid_table_def min_def)

lemma Sequential_forward_shape:
  assumes "list_all (TransformerBlock_ok D H) bs" and "nrow x = L" and "ncol x = D"
  shows "\<exists>y. Sequential_forward bs x = Inr y \<and> nrow y = L \<and> ncol y = D"
  using assms
proof (induction bs arbitrary: x)
  case Nil
  then show ?case by simp
next
  case (Cons b bs)
  from Cons.prems have b: "TransformerBlock_ok D H b" and bs: "list_all (TransformerBlock_ok D H) bs"
    by simp_all
  from TransformerBlock_forward_cells [OF b Cons.prems(2,3)]
  obtain y where y: "TransformerBlock_forward b x = Inr y" "nrow y = L" "ncol y = D"
    by blast
  from Cons.IH [OF bs y(2,3)] y(1) show ?case
    by simp
qed

lemma SimpleLLM_forward_shape:
  assumes ok: "SimpleLLM_ok V D H m"
    and ids: "\<forall>i\<in>set x. 0 \<le> i \<and> i < int V" and len: "length x \<le> 5000"
  shows "\<exists>out. SimpleLLM_forward m x = Inr out \<and> nrow out = length x \<and> ncol out = V"
proof -
  from ok have e: "nrow (embedding m) = V" "ncol (embedding m) = D"
    and p: "PositionalEncoding_init D 5000 = Inr (positional_encoding m)"
    and bs: "list_all (TransformerBlock_ok D H) (transformer_blocks m)"
    and out: "in_features (output' m) = D" "out_features (output' m) = V"
    by (simp_all add: SimpleLLM_ok_def Linear_ok_def)
  define x1 where "x1 = \<lparr>nrow = length x, ncol = D, cell = (\<lambda>p c. cell (embedding m) (nat (x ! p)) c)\<rparr>"
  have 1: "Embedding_forward (embedding m) x = Inr x1"
    using ids by (simp add: Embedding_forward_def e x1_def)
  have s1: "nrow x1 = length x" "ncol x1 = D"
    by (simp_all add: x1_def)
  from PositionalEncoding_forward_shape [OF p s1 len]
  obtain x2 where 2: "PositionalEncoding_forward (positional_encoding m) x1 = Inr x2"
      "nrow x2 = length x" "ncol x2 = D"
    by blast
  from Sequential_forward_shape [OF bs 2(2,3)]
  obtain x3 where 3: "Sequential_forward (transformer_blocks m) x2 = Inr x3"
      "nrow x3 = length x" "ncol x3 = D"
    by blast
  show ?thesis
    by (simp add: SimpleLLM_forward_def 1 2 3 Linear_forward_def out)
qed


text \<open>
  Claim C6. For a model built for a vocabulary of \<open>V > 0\<close> words and every non-empty prefix of
  ids of that vocabulary (at most 5000 of them, the length of the positional table), the
  prediction runs the forward pass, takes the logits of the last position and returns the id
  of the greatest logit, the lowest such id when several logits are greatest. The prediction
  is a function of the model and the prefix: the code path draws no random number.
\<close>

theorem predict_token_argmax:
  assumes "SimpleLLM_ok V D H m" and "0 < V"
    and "input_tokens \<noteq> []" and "\<forall>i\<in>set input_tokens. 0 \<le> i \<and> i < int V"
    and "length input_tokens \<le> 5000"
  shows "\<exists>out t. SimpleLLM_forward m input_tokens = Inr out \<and>
           nrow out = length input_tokens \<and> ncol out = V \<and>
           predict_token m input_tokens = Inr t \<and> t < V \<and>
           (\<forall>j<V. cell out (length input_tokens - 1) j \<le> cell out (length input_tokens - 1) t) \<and>
           (\<forall>j<t. cell out (length input_tokens - 1) j < cell out (length input_tokens - 1) t)"
proof -
  from SimpleLLM_forward_shape [OF assms(1,4,5)]
  obtain out where out: "SimpleLLM_forward m input_tokens = Inr out"
      "nrow out = length input_tokens" "ncol out = V"
    by blast
  let ?logits = "cell out (length input_tokens - 1)"
  let ?t = "argmax_upto ?logits (V - 1)"
  have sel: "select_last out = Inr ?logits"
    using assms(3) by (simp add: select_last_def out(2))
  have pt: "predict_token m input_tokens = Inr ?t"
    using assms(2,3) by (simp add: predict_token_def out sel argmax_def)
  have "?t \<le> V - 1"
    by (rule argmax_upto_le)
  with assms(2) have lt: "?t < V"
    by simp
  have mx: "\<forall>j<V. ?logits j \<le> ?logits ?t"
    using assms(2) by (auto intro: argmax_upto_max)
  have fst: "\<forall>j<?t. ?logits j < ?logits ?t"
    by (auto intro: argmax_upto_first)
  from out pt lt mx fst show ?thesis
    by (intro exI [of _ out] exI [of _ ?t]) simp
qed


lemma example_model_ok: "SimpleLLM_ok 3 2 1 example_model"
  by (simp add: SimpleLLM_ok_def example_model_def rows_def PositionalEncoding_init_def
      TransformerBlock_ok_def example_block2_def uniform_attention_ok LayerNorm_ok_def
      unit_norm_def Linear_ok_def zero_linear_def example_output_def in_features_def
      out_features_def)

lemma example_model_logits:
  assumes "SimpleLLM_forward example_model x = Inr out"
  shows "cell out i j = [1, 3, 3] ! j"
  using assms
  by (auto simp: SimpleLLM_forward_def Linear_forward_def example_model_def example_output_def
      split: sum.splits if_splits)

text \<open>
  The theorem at a model whose logits are \<open>[1, 3, 3]\<close>: of the two greatest, id 1 is returned.
\<close>

theorem predict_token_argmax_witness:
  "SimpleLLM_ok 3 2 1 example_model \<and> (0::nat) < 3 \<and> [0, 2 :: int] \<noteq> [] \<and>
   length [0, 2 :: int] \<le> 5000 \<and>
   (\<exists>out. SimpleLLM_forward example_model [0, 2] = Inr out \<and> nrow out = 2 \<and> ncol out = 3 \<and>
      cell out 1 0 = 1 \<and> cell out 1 1 = 3 \<and> cell out 1 2 = 3) \<and>
   predict_token example_model [0, 2] = Inr 1"
proof -
  have pos: "(0::nat) < 3" and ne: "[0, 2 :: int] \<noteq> []" and len: "length [0, 2 :: int] \<le> 5000"
    by simp_all
  have rng: "\<forall>i\<in>set [0, 2 :: int]. 0 \<le> i \<and> i < int 3"
    by simp
  from predict_token_argmax [OF example_model_ok pos ne rng len]
  obtain out t where out: "SimpleLLM_forward example_model [0, 2] = Inr out"
      "nrow out = length [0, 2 :: int]" "ncol out = 3"
    and t: "predict_token example_model [0, 2] = Inr t" "t < 3"
      "\<forall>j<3. cell out (length [0, 2 :: int] - 1) j \<le> cell out (length [0, 2 :: int] - 1) t"
      "\<forall>j<t. cell out (length [0, 2 :: int] - 1) j < cell out (length [0, 2 :: int] - 1) t"
    by blast
  note lg = example_model_logits [OF out(1)]
  have "t \<noteq> 0"
  proof
    assume "t = 0"
    with t(3) [rule_format, of 1] show False by (simp add: lg)
  qed
  moreover have "t \<noteq> 2"
  proof
    assume "t = 2"
    with t(4) [rule_format, of 1] show False by (simp add: lg)
  qed
  ultimately have "t = 1"
    using t(2) by linarith
  with t(1) have pt: "predict_token example_model [0, 2] = Inr 1"
    by simp
  have cells: "cell out 1 0 = 1" "cell out 1 1 = 3" "cell out 1 2 = 3"
    by (simp_all add: lg)
  from out(2) have "nrow out = 2"
    by simp
  with example_model_ok pos ne len out(1,3) cells pt show ?thesis
    by (intro conjI exI [of _ out])
qed

section \<open>Properties of the training loop\<close>

lemma for_loop_map:
  "for_loop body (map f xs) st = for_loop (\<lambda>x. body (f x)) xs st"
  by (induction xs arbitrary: st) (simp_all split: prod.splits option.splits)


lemma for_loop_frame:
  assumes "\<And>x st. f (snd (body x st)) = f st"
  shows "f (snd (for_loop body xs st)) = f st"
proof (induction xs arbitrary: st)
  case Nil
  then show ?case by simp
next
  case (Cons x xs)
  obtain e st' where b: "body x st = (e, st')"
    by (cases "body x st")
  with assms [of x st] have "f st' = f st"
    by simp
  with Cons.IH [of st'] b show ?case
    by (cases e) simp_all
qed

lemma for_loop_invariant:
  assumes "\<And>x st. x \<in> set xs \<Longrightarrow> I st \<Longrightarrow>
             \<exists>st'. body x st = (None, st') \<and> I st' \<and> n st' = n st + 1"
    and "I st"
  shows "\<exists>st'. for_loop body xs st = (None, st') \<and> I st' \<and> n st' = n st + length xs"
  using assms
proof (induction xs arbitrary: st)
  case Nil
  then show ?case by simp
next
  case (Cons x xs)
  from Cons.prems(1) [of x st] Cons.prems(2)
  obtain st1 where 1: "body x st = (None, st1)" "I st1" "n st1 = n st + 1"
    by auto
  have "\<exists>st'. for_loop body xs st1 = (None, st') \<and> I st' \<and> n st' = n st1 + length xs"
    using Cons.prems(1) 1(2) by (intro Cons.IH) auto
  with 1 show ?case
    by auto
qed

lemma positional_encoding_load:
  "positional_encoding (load_parameters m \<theta>) = positional_encoding m"
  by (simp add: load_parameters_def)

lemma parameters_load: "parameters (load_parameters m \<theta>) = \<theta>"
  by (simp add: parameters_def load_parameters_def)

lemma SimpleLLM_ok_params:
  "SimpleLLM_ok V D H m \<longleftrightarrow>
     params_ok V D H (parameters m) \<and> PositionalEncoding_init D 5000 = Inr (positional_encoding m)"
  by (auto simp: SimpleLLM_ok_def params_ok_def parameters_def)

lemma positional_encoding_step:
  "positional_encoding (model (step update st)) = positional_encoding (model st)"
  by (simp add: step_def positional_encoding_load split: option.splits prod.splits)

lemma positional_encoding_train_prefix:
  "positional_encoding (model (snd (train_prefix autograd update S i st))) =
   positional_encoding (model st)"
  by (simp add: train_prefix_def Let_def positional_encoding_step zero_grad_def backward_def
      split: sum.splits)

text \<open>
  Claim C8. The positional table is no parameter: the parameters of a model do not depend on
  it, and writing parameters back leaves it as it is. Resetting the gradients and the
  backward pass leave the whole model as it is (the forward pass and the loss are functions
  of the model and change nothing), the step of the optimizer changes the parameters only,
  and so one training example, and the whole training run over all epochs and sentences,
  whether it ends normally or in an exception, leave the positional table unchanged.
\<close>

theorem positional_table_frame:
  "parameters (m\<lparr>positional_encoding := p\<rparr>) = parameters m \<and>
   positional_encoding (load_parameters m \<theta>) = positional_encoding m \<and>
   model (zero_grad st) = model st \<and>
   model (backward autograd st input_seq target) = model st \<and>
   positional_encoding (model (step update st)) = positional_encoding (model st) \<and>
   positional_encoding (model (snd (train_prefix autograd update S i st))) =
     positional_encoding (model st) \<and>
   positional_encoding (model (snd (train autograd update epochs tokenized_data st))) =
     positional_encoding (model st)"
proof -
  let ?pe = "\<lambda>st :: ('a, 'b) trainer. positional_encoding (model st)"
  have sentence: "?pe (snd (train_sentence autograd update S' st')) = ?pe st'" for S' st'
    unfolding train_sentence_def
    by (rule for_loop_frame [where f = ?pe]) (rule positional_encoding_train_prefix)
  have epoch: "?pe (snd (for_loop (train_sentence autograd update) data st')) = ?pe st'"
    for data st'
    by (rule for_loop_frame [where f = ?pe]) (rule sentence)
  have "?pe (snd (train autograd update epochs tokenized_data st)) = ?pe st"
    unfolding train_def
    by (rule for_loop_frame [where f = ?pe]) (rule epoch)
  then show ?thesis
    by (simp add: parameters_def positional_encoding_load zero_grad_def backward_def Let_def
        positional_encoding_step positional_encoding_train_prefix)
qed

text \<open>
  The theorem at the example trainer, two epochs over two sentences.
\<close>

theorem positional_table_frame_witness:
  "positional_encoding (model (snd (train example_autograd example_update 2 [[0, 2, 1], [1, 0]]
      example_trainer))) = \<lparr>embedding_dim = 2, pe = sinusoid_table 2 5000\<rparr> \<and>
   model (zero_grad example_trainer) = example_model \<and>
   model (backward example_autograd example_trainer [0] 2) = example_model"
  using positional_table_frame [where m = example_model and st = example_trainer
      and autograd = example_autograd and update = example_update and input_seq = "[0]"
      and target = 2 and epochs = 2 and tokenized_data = "[[0, 2, 1], [1, 0]]"]
  by (simp add: example_trainer_def example_model_def)

lemma loss_of_Inr:
  assumes "SimpleLLM_ok V D H m" and "input_seq \<noteq> []"
    and "\<forall>i\<in>set input_seq. 0 \<le> i \<and> i < int V" and "length input_seq \<le> 5000"
    and "0 \<le> target \<and> target < int V"
  shows "\<exists>l. loss_of m input_seq target = Inr l"
proof -
  from SimpleLLM_forward_shape [OF assms(1,3,4)]
  obtain out where out: "SimpleLLM_forward m input_seq = Inr out"
      "nrow out = length input_seq" "ncol out = V"
    by blast
  then show ?thesis
    using assms(2,5) by (simp add: loss_of_def select_last_def cross_entropy_def)
qed

section \<open>Permutation of the positions\<close>

lemma permute_shape [simp]: "nrow (permute p x) = nrow x" "ncol (permute p x) = ncol x"
  by (simp_all add: permute_def)

lemma SelfAttention_forward_permute:
  assumes "SelfAttention_ok (ncol x) a" and "bij_betw p {..<nrow x} {..<nrow x}"
  shows "SelfAttention_forward a (permute p x) =
         map_sum id (permute p) (SelfAttention_forward a x)"
proof -
  have ok': "SelfAttention_ok (ncol (permute p x)) a"
    using assms(1) by simp
  have "attention a (permute p x) = (\<lambda>i c. attention a x (p i) c)"
    by (simp add: fun_eq_iff attention_permute [OF assms(2)])
  then show ?thesis
    using assms(1) ok'
    by (simp add: SelfAttention_forward_def SelfAttention_locals_Inr)
       (simp add: permute_def)
qed

lemma Linear_forward_permute:
  "Linear_forward l (permute p x) = map_sum id (permute p) (Linear_forward l x)"
  by (simp add: Linear_forward_def permute_def)

lemma LayerNorm_forward_permute:
  "LayerNorm_forward n (permute p x) = map_sum id (permute p) (LayerNorm_forward n x)"
  by (simp add: LayerNorm_forward_def permute_def)

lemma relu_permute: "relu (permute p x) = permute p (relu x)"
  by (simp add: relu_def permute_def)

lemma feed_forward_permute:
  "feed_forward b (permute p x) = map_sum id (permute p) (feed_forward b x)"
  by (cases "Linear_forward (feed_forward_0 b) x")
     (simp_all add: feed_forward_def Linear_forward_permute relu_permute)

lemma expand_index_permute:
  assumes "bij_betw p {..<L} {..<L}"
  shows "p (expand_index L i) = expand_index L (p i)"
proof (cases "L = 1")
  case True
  with assms have "p 0 \<in> {..<1}"
    by (auto simp: bij_betw_def)
  with True show ?thesis
    by (simp add: expand_index_def)
next
  case False
  then show ?thesis
    by (simp add: expand_index_def)
qed

lemma add_broadcast_permute:
  assumes "nrow a = nrow b" and "bij_betw p {..<nrow a} {..<nrow a}"
  shows "add_broadcast (permute p a) (permute p b) = map_sum id (permute p) (add_broadcast a b)"
proof -
  have "p (expand_index (nrow a) i) = expand_index (nrow a) (p i)" for i
    using assms(2) by (rule expand_index_permute)
  then show ?thesis
    using assms(1)
    by (simp add: add_broadcast_def broadcast_size_def permute_def split: option.splits)
qed

lemma TransformerBlock_forward_permute:
  assumes ok: "TransformerBlock_ok D H b" and shape: "ncol x = D"
    and bij: "bij_betw p {..<nrow x} {..<nrow x}"
  shows "TransformerBlock_forward b (permute p x) =
         map_sum id (permute p) (TransformerBlock_forward b x)"
proof -
  let ?a = "attention_layer b"
  from ok have a_ok: "SelfAttention_ok (ncol x) ?a"
    by (simp add: TransformerBlock_ok_def shape)
  define attended where "attended = \<lparr>nrow = nrow x, ncol = ncol x, cell = attention ?a x\<rparr>"
  have att: "SelfAttention_forward ?a x = Inr attended"
    using a_ok by (simp add: SelfAttention_forward_def SelfAttention_locals_Inr attended_def)
  have attp: "SelfAttention_forward ?a (permute p x) = Inr (permute p attended)"
    by (simp add: SelfAttention_forward_permute [OF a_ok bij] att)
  have r: "nrow x = nrow attended"
    by (simp add: attended_def)
  note sum1 = add_broadcast_permute [OF r bij]
  show ?thesis
  proof (cases "add_broadcast x attended")
    case (Inl e)
    then show ?thesis
      by (simp add: TransformerBlock_forward_def att attp sum1)
  next
    case s1: (Inr s1)
    have n1: "nrow s1 = nrow x"
      using s1 by (auto simp: add_broadcast_def broadcast_size_def attended_def split: option.splits if_splits)
    show ?thesis
    proof (cases "LayerNorm_forward (norm1 b) s1")
      case (Inl e)
      then show ?thesis
        by (simp add: TransformerBlock_forward_def att attp sum1 s1 LayerNorm_forward_permute)
    next
      case x1: (Inr x1)
      have nx1: "nrow x1 = nrow x"
        using x1 n1 by (auto simp: LayerNorm_forward_def split: if_splits)
      show ?thesis
      proof (cases "feed_forward b x1")
        case (Inl e)
        then show ?thesis
          by (simp add: TransformerBlock_forward_def att attp sum1 s1 LayerNorm_forward_permute x1
              feed_forward_permute)
      next
        case fw: (Inr fw)
        have nf: "nrow x1 = nrow fw"
          using fw by (auto simp: feed_forward_def Linear_forward_def relu_def
              split: sum.splits if_splits)
        have bij1: "bij_betw p {..<nrow x1} {..<nrow x1}"
          using bij by (simp add: nx1)
        note sum2 = add_broadcast_permute [OF nf bij1]
        show ?thesis
          by (cases "add_broadcast x1 fw")
             (simp_all add: TransformerBlock_forward_def att attp sum1 s1 LayerNorm_forward_permute x1
              feed_forward_permute fw sum2)
      qed
    qed
  qed
qed

lemma Sequential_forward_permute:
  assumes "list_all (TransformerBlock_ok D H) bs" and "ncol x = D"
    and "bij_betw p {..<nrow x} {..<nrow x}"
  shows "Sequential_forward bs (permute p x) = map_sum id (permute p) (Sequential_forward bs x)"
  using assms
proof (induction bs arbitrary: x)
  case Nil
  then show ?case by simp
next
  case (Cons b bs)
  from Cons.prems have b: "TransformerBlock_ok D H b" and bs: "list_all (TransformerBlock_ok D H) bs"
    by simp_all
  from TransformerBlock_forward_cells [OF b refl Cons.prems(2)]
  obtain y where y: "TransformerBlock_forward b x = Inr y" "nrow y = nrow x" "ncol y = D"
    by blast
  have bij: "bij_betw p {..<nrow y} {..<nrow y}"
    using Cons.prems(3) by (simp add: y(2))
  have "TransformerBlock_forward b (permute p x) = Inr (permute p y)"
    by (simp add: TransformerBlock_forward_permute [OF b Cons.prems(2,3)] y(1))
  with Cons.IH [OF bs y(3) bij] y(1) show ?case
    by simp
qed

text \<open>
  Claim C9. \<^verbatim>\<open>SelfAttention.forward\<close> is permutation-equivariant: for every permutation
  \<open>p\<close> of the \<open>L\<close> positions, the output on the permuted sequence is the permuted output.
  The stack of transformer blocks and a linear layer (the output projection) commute with
  the permutation as well, so nothing after the positional encoding reads the position of a
  token: the order of the input reaches the logits through the positional table only.
\<close>

theorem SelfAttention_permutation_equivariant:
  assumes "SelfAttention_ok (ncol x) a" and "0 < ncol x"
    and "bij_betw p {..<nrow x} {..<nrow x}"
  shows "SelfAttention_forward a (permute p x) =
           map_sum id (permute p) (SelfAttention_forward a x) \<and>
         (\<forall>H bs. list_all (TransformerBlock_ok (ncol x) H) bs \<longrightarrow>
            Sequential_forward bs (permute p x) =
              map_sum id (permute p) (Sequential_forward bs x)) \<and>
         (\<forall>l. Linear_forward l (permute p x) = map_sum id (permute p) (Linear_forward l x))"
  using assms(1,3)
  by (simp add: SelfAttention_forward_permute Sequential_forward_permute Linear_forward_permute)


lemma bij_swap01: "bij_betw swap01 {..<Suc (Suc 0)} {..<Suc (Suc 0)}"
  by (rule bij_betw_byWitness [where f' = swap01]) (auto simp: swap01_def)

text \<open>
  The theorem at the two-token input \<open>[[0], [2]]\<close> with its two positions exchanged.
\<close>

theorem SelfAttention_permutation_equivariant_witness:
  "SelfAttention_ok (ncol (rows [[0], [2]] 1)) (uniform_attention 1) \<and>
   0 < ncol (rows [[0], [2]] 1) \<and>
   bij_betw swap01 {..<nrow (rows [[0], [2]] 1)} {..<nrow (rows [[0], [2]] 1)} \<and>
   SelfAttention_forward (uniform_attention 1) (permute swap01 (rows [[0], [2]] 1)) =
     map_sum id (permute swap01) (SelfAttention_forward (uniform_attention 1) (rows [[0], [2]] 1)) \<and>
   list_all (TransformerBlock_ok (ncol (rows [[0], [2]] 1)) 1) [example_block] \<and>
   Sequential_forward [example_block] (permute swap01 (rows [[0], [2]] 1)) =
     map_sum id (permute swap01) (Sequential_forward [example_block] (rows [[0], [2]] 1)) \<and>
   Linear_forward (identity_linear 1) (permute swap01 (rows [[0], [2]] 1)) =
     map_sum id (permute swap01) (Linear_forward (identity_linear 1) (rows [[0], [2]] 1))"
proof -
  let ?x = "rows [[0], [2]] 1"
  let ?a = "uniform_attention 1"
  have ok: "SelfAttention_ok (ncol ?x) ?a"
    by (simp add: rows_def uniform_attention_ok)
  have pos: "0 < ncol ?x"
    by (simp add: rows_def)
  have bij: "bij_betw swap01 {..<nrow ?x} {..<nrow ?x}"
    using bij_swap01 by (simp add: rows_def)
  have blocks: "list_all (TransformerBlock_ok (ncol ?x) 1) [example_block]"
    using example_block_ok by (simp add: rows_def)
  note th = SelfAttention_permutation_equivariant [OF ok pos bij]
  from th have sa: "SelfAttention_forward ?a (permute swap01 ?x) =
      map_sum id (permute swap01) (SelfAttention_forward ?a ?x)"
    by (rule conjunct1)
  from th blocks have sq: "Sequential_forward [example_block] (permute swap01 ?x) =
      map_sum id (permute swap01) (Sequential_forward [example_block] ?x)"
    by blast
  from th have li: "Linear_forward (identity_linear 1) (permute swap01 ?x) =
      map_sum id (permute swap01) (Linear_forward (identity_linear 1) ?x)"
    by blast
  from ok pos bij sa blocks sq li show ?thesis
    by (intro conjI)
qed

section \<open>Properties of the tokenizer\<close>

lemma comprehension_total:
  assumes "\<And>x. f x = Inr (g x)"
  shows "comprehension f xs = Inr (map g xs)"
  by (induction xs) (simp_all add: assms)

lemma get_in_range:
  assumes "\<forall>v\<in>snd ` set vocab. 0 \<le> v \<and> v < V" and "0 \<le> d \<and> d < V"
  shows "0 \<le> get vocab w d \<and> get vocab w d < V"
proof (cases "map_of vocab w")
  case None
  then show ?thesis using assms(2) by (simp add: get_def)
next
  case (Some v)
  then have "(w, v) \<in> set vocab" by (rule map_of_SomeD)
  then have "v \<in> snd ` set vocab" by force
  with assms(1) have "0 \<le> v \<and> v < V" by blast
  with Some show ?thesis by (simp add: get_def)
qed

lemma length_split_from:
  assumes "isspace b \<longleftrightarrow> w = []"
  shows "length (split_from w text) =
         (if w = [] then 0 else 1) +
         length (filter (\<lambda>(before, c). isspace before \<and> \<not> isspace c) (zip (b # text) text))"
  using assms
proof (induction "text" arbitrary: w b)
  case Nil
  then show ?case by simp
next
  case (Cons c cs)
  show ?case
  proof (cases "isspace c")
    case True
    have "length (split_from [] cs) =
          0 + length (filter (\<lambda>(before, c). isspace before \<and> \<not> isspace c) (zip (c # cs) cs))"
      using Cons.IH [of c "[]"] True by simp
    with True show ?thesis by simp
  next
    case False
    have "length (split_from (w @ [c]) cs) =
          1 + length (filter (\<lambda>(before, c). isspace before \<and> \<not> isspace c) (zip (c # cs) cs))"
      using Cons.IH [of c "w @ [c]"] False by simp
    with False Cons.prems show ?thesis by simp
  qed
qed

lemma length_split: "length (split text) = word_starts text"
proof -
  have "isspace 32 \<longleftrightarrow> ([] :: str) = []"
    by (simp add: isspace_def)
  from length_split_from [OF this, of "text"] show ?thesis
    by (simp add: split_def word_starts_def)
qed

lemma split_from_words:
  assumes "\<forall>c\<in>set w. \<not> isspace c" and "u \<in> set (split_from w text)"
  shows "u \<noteq> [] \<and> (\<forall>c\<in>set u. \<not> isspace c)"
  using assms
proof (induction "text" arbitrary: w)
  case Nil
  then show ?case by (auto split: if_splits)
next
  case (Cons c cs)
  show ?case
  proof (cases "isspace c")
    case True
    with Cons.prems(2) have "u = w \<and> w \<noteq> [] \<or> u \<in> set (split_from [] cs)"
      by (auto split: if_splits)
    then show ?thesis
    proof
      assume "u = w \<and> w \<noteq> []"
      with Cons.prems(1) show ?thesis by simp
    next
      assume "u \<in> set (split_from [] cs)"
      then show ?thesis by (intro Cons.IH [of "[]"]) simp_all
    qed
  next
    case False
    with Cons.prems(2) have "u \<in> set (split_from (w @ [c]) cs)"
      by simp
    moreover have "\<forall>a\<in>set (w @ [c]). \<not> isspace a"
      using Cons.prems(1) False by simp
    ultimately show ?thesis by (intro Cons.IH [of "w @ [c]"])
  qed
qed

text \<open>
  Claim C10. For every text and every vocabulary that has the key \<open><UNK>\<close> and whose values all
  lie in \<open>[0, V)\<close>, \<^verbatim>\<open>tokenize\<close> returns one id for every whitespace-separated word: the
  id the vocabulary gives to the word, or the id of \<open><UNK>\<close> for a word it does not have. The
  number of ids is the number of word starts of the text, and the words are not empty and
  hold no whitespace. Every id lies in \<open>[0, V)\<close>, so it is a row of an embedding table of
  \<open>V\<close> rows, and the lookup of a non-empty list of ids returns one row for each. The
  \<^verbatim>\<open>tokenize\<close> of the empty string is the empty list.
\<close>

theorem tokenize_ids_in_range:
  assumes "dict_ok vocab" and "UNK \<in> fst ` set vocab"
    and "\<forall>v\<in>snd ` set vocab. 0 \<le> v \<and> v < int V"
  shows "(\<exists>ids unk. tokenize text vocab = Inr ids \<and> (UNK, unk) \<in> set vocab \<and>
            ids = map (\<lambda>word. case map_of vocab word of None \<Rightarrow> unk | Some v \<Rightarrow> v) (split text) \<and>
            length ids = word_starts text \<and>
            (\<forall>word\<in>set (split text). word \<noteq> [] \<and> (\<forall>c\<in>set word. \<not> isspace c)) \<and>
            (\<forall>i\<in>set ids. 0 \<le> i \<and> i < int V) \<and>
            (\<forall>table. nrow table = V \<and> ids \<noteq> [] \<longrightarrow>
               (\<exists>y. Embedding_forward table ids = Inr y \<and> nrow y = length ids))) \<and>
         tokenize [] vocab = Inr []"
proof
  from assms(2) obtain d where d: "map_of vocab UNK = Some d"
    by (metis not_None_eq map_of_eq_None_iff)
  then have mem: "(UNK, d) \<in> set vocab" by (rule map_of_SomeD)
  then have "d \<in> snd ` set vocab" by force
  with assms(3) have dr: "0 \<le> d \<and> d < int V" by blast
  let ?ids = "map (\<lambda>word. case map_of vocab word of None \<Rightarrow> d | Some v \<Rightarrow> v) (split text)"
  have tok: "tokenize text vocab = Inr ?ids"
    unfolding tokenize_def by (rule comprehension_total) (simp add: getitem_def get_def d)
  have len: "length ?ids = word_starts text"
    by (simp add: length_split)
  have words: "\<forall>word\<in>set (split text). word \<noteq> [] \<and> (\<forall>c\<in>set word. \<not> isspace c)"
    unfolding split_def using split_from_words [of "[]"] by simp
  have rng: "\<forall>i\<in>set ?ids. 0 \<le> i \<and> i < int V"
    using get_in_range [OF assms(3) dr] by (auto simp: get_def)
  then have emb: "\<forall>table. nrow table = V \<and> ?ids \<noteq> [] \<longrightarrow>
      (\<exists>y. Embedding_forward table ?ids = Inr y \<and> nrow y = length ?ids)"
    by (simp add: Embedding_forward_def)
  from tok mem len words rng emb
  show "\<exists>ids unk. tokenize text vocab = Inr ids \<and> (UNK, unk) \<in> set vocab \<and>
            ids = map (\<lambda>word. case map_of vocab word of None \<Rightarrow> unk | Some v \<Rightarrow> v) (split text) \<and>
            length ids = word_starts text \<and>
            (\<forall>word\<in>set (split text). word \<noteq> [] \<and> (\<forall>c\<in>set word. \<not> isspace c)) \<and>
            (\<forall>i\<in>set ids. 0 \<le> i \<and> i < int V) \<and>
            (\<forall>table. nrow table = V \<and> ids \<noteq> [] \<longrightarrow>
               (\<exists>y. Embedding_forward table ids = Inr y \<and> nrow y = length ids))"
    by (intro exI [of _ ?ids] exI [of _ d] conjI) (rule refl | assumption)+
next
  show "tokenize [] vocab = Inr []"
    by (simp add: tokenize_def split_def)
qed


text \<open>
  The theorem at the vocabulary of the notebook (six entries) and a text with an unknown
  word and repeated and trailing blanks.
\<close>

theorem tokenize_ids_in_range_witness:
  "dict_ok notebook_vocab \<and> UNK \<in> fst ` set notebook_vocab \<and>
   map snd notebook_vocab = [0, 1, 2, 3, 4, 5] \<and>
   tokenize (str_of ''hello  there world '') notebook_vocab = Inr [0, 5, 1] \<and>
   word_starts (str_of ''hello  there world '') = 3 \<and>
   (\<exists>y. Embedding_forward (rows [[0], [0], [0], [0], [0], [0]] 1) [0, 5, 1] = Inr y \<and> nrow y = 3) \<and>
   tokenize [] notebook_vocab = Inr []"
proof -
  let ?text = "str_of ''hello  there world ''"
  have ok: "dict_ok notebook_vocab"
    by (simp add: dict_ok_def notebook_vocab_def str_of_def)
  have unk: "UNK \<in> fst ` set notebook_vocab"
    by (simp add: notebook_vocab_def UNK_def)
  have vals: "map snd notebook_vocab = [0, 1, 2, 3, 4, 5]"
    by (simp add: notebook_vocab_def)
  have "snd ` set notebook_vocab = set (map snd notebook_vocab)"
    by simp
  then have rng: "\<forall>v\<in>snd ` set notebook_vocab. 0 \<le> v \<and> v < int 6"
    unfolding vals by simp
  note th = tokenize_ids_in_range [OF ok unk rng, of ?text]
  have tok: "tokenize ?text notebook_vocab = Inr [0, 5, 1]"
    by (simp add: tokenize_def split_def str_of_def isspace_def notebook_vocab_def getitem_def
        get_def UNK_def)
  from th obtain ids where ids: "tokenize ?text notebook_vocab = Inr ids"
      "length ids = word_starts ?text"
      "\<forall>table. nrow table = 6 \<and> ids \<noteq> [] \<longrightarrow>
         (\<exists>y. Embedding_forward table ids = Inr y \<and> nrow y = length ids)"
    by blast
  from ids(1) tok have eq: "ids = [0, 5, 1]"
    by simp
  from ids(2) have ws: "word_starts ?text = 3"
    by (simp add: eq)
  have "nrow (rows [[0], [0], [0], [0], [0], [0]] 1) = 6"
    by (simp add: rows_def)
  with ids(3) obtain y where y: "Embedding_forward (rows [[0], [0], [0], [0], [0], [0]] 1) ids = Inr y"
      "nrow y = length ids"
    by (auto simp: eq)
  from y(2) have "nrow y = 3"
    by (simp add: eq)
  with y(1) have emb: "\<exists>y. Embedding_forward (rows [[0], [0], [0], [0], [0], [0]] 1) [0, 5, 1] = Inr y \<and>
      nrow y = 3"
    unfolding eq by (intro exI [of _ y] conjI)
  from th have "tokenize [] notebook_vocab = Inr []"
    by (rule conjunct2)
  with ok unk vals tok ws emb show ?thesis
    by (intro conjI)
qed

section \<open>Properties of teacher forcing\<close>

lemma examples_from_map:
  "examples_from seen rest = map (\<lambda>i. (seen @ take i rest, rest ! i)) [0..<length rest]"
proof (induction rest arbitrary: seen)
  case Nil
  then show ?case by simp
next
  case (Cons t rest)
  have "[0..<length (t # rest)] = 0 # map Suc [0..<length rest]"
    by (simp add: upt_conv_Cons map_Suc_upt del: upt_Suc)
  then show ?case
    by (simp add: Cons.IH comp_def del: upt_Suc)
qed

lemma examples_map: "examples S = map (\<lambda>i. (take i S, S ! i)) [1..<length S]"
proof (cases S)
  case Nil
  then show ?thesis by (simp add: examples_def)
next
  case (Cons first rest)
  have "[1..<length (first # rest)] = map Suc [0..<length rest]"
    by (simp add: map_Suc_upt del: upt_Suc)
  then show ?thesis
    by (simp add: Cons examples_def examples_from_map comp_def del: upt_Suc)
qed

lemma load_parameters_with: "load_parameters m \<theta> = with_parameters m \<theta>"
  by (cases m) (simp add: load_parameters_def with_parameters_def)

lemma loss_of_example_loss: "loss_of m input_seq target = example_loss m (input_seq, target)"
proof (cases "SimpleLLM_forward m input_seq")
  case (Inl e)
  then show ?thesis by (simp add: loss_of_def example_loss_def)
next
  case (Inr out)
  show ?thesis
  proof (cases "nrow out = 0 \<or> target < 0 \<or> int (ncol out) \<le> target")
    case True
    then show ?thesis
      by (auto simp: loss_of_def example_loss_def Inr select_last_def cross_entropy_def)
  next
    case False
    then have t: "nat target < ncol out"
      by auto
    have pos: "0 < (\<Sum>j<ncol out. exp (cell out (nrow out - 1) j))"
      using t by (intro sum_pos) auto
    have "ln (exp (cell out (nrow out - 1) (nat target)) /
              (\<Sum>j<ncol out. exp (cell out (nrow out - 1) j))) =
          cell out (nrow out - 1) (nat target) - ln (\<Sum>j<ncol out. exp (cell out (nrow out - 1) j))"
      using pos by (simp add: ln_div)
    with False show ?thesis
      by (simp add: loss_of_def example_loss_def Inr select_last_def cross_entropy_def
          softmax_probability_def)
  qed
qed

lemma loss_function_example_loss:
  "loss_function m input_seq target =
   (\<lambda>\<theta>. case example_loss (with_parameters m \<theta>) (input_seq, target) of Inl e \<Rightarrow> 0 | Inr l \<Rightarrow> l)"
  by (simp add: fun_eq_iff loss_function_def load_parameters_with loss_of_example_loss)

lemma train_prefix_example:
  "train_prefix autograd update S i st = train_example autograd update (take i S, S ! i) st"
  by (cases st)
     (simp add: train_prefix_def train_example_def zero_grad_def backward_def step_def Let_def
      loss_of_example_loss loss_function_example_loss load_parameters_with parameters_def
      split: sum.splits prod.splits)

lemma train_sentence_examples:
  "train_sentence autograd update S st = for_loop (train_example autograd update) (examples S) st"
proof -
  have "train_prefix autograd update S = (\<lambda>i. train_example autograd update (take i S, S ! i))"
    by (intro ext) (rule train_prefix_example)
  then show ?thesis
    by (simp add: train_sentence_def examples_map for_loop_map)
qed


lemma with_parameters_simps:
  "with_parameters m (parameters m) = m"
  "parameters (with_parameters m \<theta>) = \<theta>"
  "positional_encoding (with_parameters m \<theta>) = positional_encoding m"
  by (cases m, simp add: with_parameters_def parameters_def)
     (simp_all add: with_parameters_def parameters_def)

lemma train_example_step:
  assumes "SimpleLLM_forward (model st1) (fst ex) = Inr out" and "0 < nrow out"
    and "0 \<le> snd ex" and "snd ex < int (ncol out)"
  shows "\<exists>st2 g r. train_example autograd update ex st1 = (None, st2) \<and>
          loss st2 = Some (- ln (exp (cell out (nrow out - 1) (nat (snd ex))) /
                               (\<Sum>j<ncol out. exp (cell out (nrow out - 1) j)))) \<and>
          g = autograd (\<lambda>\<theta>. case example_loss (with_parameters (model st1) \<theta>) ex of
                              Inl e \<Rightarrow> 0 | Inr l \<Rightarrow> l) (parameters (model st1)) \<and>
          grad st2 = Some g \<and>
          r = update (optimizer st1) (parameters (model st1)) g \<and>
          optimizer st2 = fst r \<and> model st2 = with_parameters (model st1) (snd r) \<and>
          step_calls st2 = step_calls st1 + 1"
proof -
  have l: "example_loss (model st1) ex =
      Inr (- ln (exp (cell out (nrow out - 1) (nat (snd ex))) /
                 (\<Sum>j<ncol out. exp (cell out (nrow out - 1) j))))"
    using assms by (simp add: example_loss_def softmax_probability_def)
  show ?thesis
    by (simp add: train_example_def l Let_def parameters_def)
qed

lemma train_example_raises:
  assumes "SimpleLLM_forward (model st1) (fst ex) = Inl e"
  shows "train_example autograd update ex st1 = (Some e, st1\<lparr>grad := None\<rparr>)"
  using assms by (simp add: train_example_def example_loss_def)

lemma train_example_ok:
  assumes "SimpleLLM_ok V D H (model st)" and "keeps_shapes V D H update"
    and "fst ex \<noteq> []" and "\<forall>i\<in>set (fst ex). 0 \<le> i \<and> i < int V" and "length (fst ex) \<le> 5000"
    and "0 \<le> snd ex \<and> snd ex < int V"
  shows "\<exists>st'. train_example autograd update ex st = (None, st') \<and>
           SimpleLLM_ok V D H (model st') \<and> step_calls st' = step_calls st + 1"
proof -
  from SimpleLLM_forward_shape [OF assms(1,4,5)]
  obtain out where out: "SimpleLLM_forward (model st) (fst ex) = Inr out"
      "nrow out = length (fst ex)" "ncol out = V"
    by blast
  have "0 < nrow out" "0 \<le> snd ex" "snd ex < int (ncol out)"
    using assms(3,6) out(2,3) by simp_all
  from train_example_step [OF out(1) this, of autograd update]
  obtain st2 r where st2: "train_example autograd update ex st = (None, st2)"
      "model st2 = with_parameters (model st) (snd r)"
      "r = update (optimizer st) (parameters (model st))
             (autograd (\<lambda>\<theta>. case example_loss (with_parameters (model st) \<theta>) ex of
                              Inl e \<Rightarrow> 0 | Inr l \<Rightarrow> l) (parameters (model st)))"
      "step_calls st2 = step_calls st + 1"
    by blast
  from assms(1) have p: "params_ok V D H (parameters (model st))"
    and pe: "PositionalEncoding_init D 5000 = Inr (positional_encoding (model st))"
    by (simp_all add: SimpleLLM_ok_params)
  from assms(2) p have "params_ok V D H (snd r)"
    unfolding keeps_shapes_def st2(3) by blast
  then have "SimpleLLM_ok V D H (model st2)"
    using pe by (simp add: SimpleLLM_ok_params st2(2) with_parameters_simps)
  with st2(1,4) show ?thesis
    by blast
qed

lemma examples_ok:
  assumes "\<forall>t\<in>set S. 0 \<le> t \<and> t < int V" and "length S \<le> 5001" and "ex \<in> set (examples S)"
  shows "fst ex \<noteq> [] \<and> (\<forall>i\<in>set (fst ex). 0 \<le> i \<and> i < int V) \<and> length (fst ex) \<le> 5000 \<and>
         0 \<le> snd ex \<and> snd ex < int V"
proof -
  from assms(3) obtain i where i: "1 \<le> i" "i < length S" "ex = (take i S, S ! i)"
    by (auto simp: examples_map)
  have "set (take i S) \<subseteq> set S"
    by (rule set_take_subset)
  with assms(1) have "\<forall>t\<in>set (take i S). 0 \<le> t \<and> t < int V"
    by blast
  moreover have "S ! i \<in> set S"
    using i(2) by simp
  with assms(1) have "0 \<le> S ! i \<and> S ! i < int V"
    by blast
  moreover have "take i S \<noteq> []" "length (take i S) \<le> 5000"
    using i(1,2) assms(2) by auto
  ultimately show ?thesis
    by (simp add: i(3))
qed

text \<open>
  Claim C2. The loop over one training sequence \<open>S\<close> is the run, in order, of one training
  example for every prefix length \<open>i\<close> from 1 to \<open>len S - 1\<close>, with input \<open>S[0:i]\<close> and
  target \<open>S[i]\<close>. When the forward pass of the model on \<open>S[0:i]\<close> returns \<open>out\<close>, the pass
  of the loop for \<open>i\<close> sets the loss to the cross-entropy of the last row of \<open>out\<close> against
  \<open>S[i]\<close>, stores the gradient of the loss of this example alone, whatever gradient was
  stored before, and makes exactly one step of the optimizer with it, which replaces the
  trainable tensors and keeps the positional table. When the forward pass raises, there is
  no step. For a model with the shapes of its constructor, an optimizer that keeps the
  shapes and a sequence of at most 5001 ids of the vocabulary, the loop ends without an
  exception after exactly \<open>len S - 1\<close> steps of the optimizer. A sequence of fewer than two
  ids has no training example and leaves the state, the parameters included, as it is.
\<close>

theorem train_sentence_teacher_forcing:
  "train_sentence autograd update S st =
     for_loop (train_example autograd update) (examples S) st \<and>
   length (examples S) = length S - 1 \<and>
   (\<forall>k<length S - 1. examples S ! k = (take (k + 1) S, S ! (k + 1))) \<and>
   (\<forall>i st1 out. 1 \<le> i \<and> i < length S \<and>
       SimpleLLM_forward (model st1) (take i S) = Inr out \<and>
       0 < nrow out \<and> 0 \<le> S ! i \<and> S ! i < int (ncol out) \<longrightarrow>
       (\<exists>st2 g r. train_prefix autograd update S i st1 = (None, st2) \<and>
          loss st2 = Some (- ln (exp (cell out (nrow out - 1) (nat (S ! i))) /
                               (\<Sum>j<ncol out. exp (cell out (nrow out - 1) j)))) \<and>
          g = autograd (\<lambda>\<theta>. case example_loss (with_parameters (model st1) \<theta>) (take i S, S ! i) of
                              Inl e \<Rightarrow> 0 | Inr l \<Rightarrow> l) (parameters (model st1)) \<and>
          grad st2 = Some g \<and>
          r = update (optimizer st1) (parameters (model st1)) g \<and>
          optimizer st2 = fst r \<and> model st2 = with_parameters (model st1) (snd r) \<and>
          step_calls st2 = step_calls st1 + 1)) \<and>
   (\<forall>i st1 e. SimpleLLM_forward (model st1) (take i S) = Inl e \<longrightarrow>
       train_prefix autograd update S i st1 = (Some e, st1\<lparr>grad := None\<rparr>)) \<and>
   with_parameters (model st) (parameters (model st)) = model st \<and>
   (\<forall>\<theta>. parameters (with_parameters (model st) \<theta>) = \<theta> \<and>
        positional_encoding (with_parameters (model st) \<theta>) = positional_encoding (model st)) \<and>
   (SimpleLLM_ok V D H (model st) \<and> keeps_shapes V D H update \<and>
    (\<forall>t\<in>set S. 0 \<le> t \<and> t < int V) \<and> length S \<le> 5001 \<longrightarrow>
      (\<exists>st'. train_sentence autograd update S st = (None, st') \<and>
             SimpleLLM_ok V D H (model st') \<and>
             step_calls st' = step_calls st + (length S - 1))) \<and>
   (length S < 2 \<longrightarrow> examples S = [] \<and> train_sentence autograd update S st = (None, st))"
proof (intro conjI impI allI)
  show "train_sentence autograd update S st =
          for_loop (train_example autograd update) (examples S) st"
    by (rule train_sentence_examples)
  show len: "length (examples S) = length S - 1"
    by (simp add: examples_map)
  show "examples S ! k = (take (k + 1) S, S ! (k + 1))" if "k < length S - 1" for k
    using that by (simp add: examples_map)
  show "examples S = []" if "length S < 2"
    using that by (auto simp: examples_map)
  show "train_sentence autograd update S st = (None, st)" if "length S < 2"
    using that by (auto simp: train_sentence_def)
  show "with_parameters (model st) (parameters (model st)) = model st"
    by (rule with_parameters_simps)
  show "parameters (with_parameters (model st) \<theta>) = \<theta>" for \<theta>
    by (rule with_parameters_simps)
  show "positional_encoding (with_parameters (model st) \<theta>) = positional_encoding (model st)" for \<theta>
    by (rule with_parameters_simps)
  show "train_prefix autograd update S i st1 = (Some e, st1\<lparr>grad := None\<rparr>)"
    if "SimpleLLM_forward (model st1) (take i S) = Inl e" for i e and st1 :: "('a, 'b) trainer"
    using that by (simp add: train_prefix_example train_example_raises)
  show "\<exists>st2 g r. train_prefix autograd update S i st1 = (None, st2) \<and>
          loss st2 = Some (- ln (exp (cell out (nrow out - 1) (nat (S ! i))) /
                               (\<Sum>j<ncol out. exp (cell out (nrow out - 1) j)))) \<and>
          g = autograd (\<lambda>\<theta>. case example_loss (with_parameters (model st1) \<theta>) (take i S, S ! i) of
                              Inl e \<Rightarrow> 0 | Inr l \<Rightarrow> l) (parameters (model st1)) \<and>
          grad st2 = Some g \<and>
          r = update (optimizer st1) (parameters (model st1)) g \<and>
          optimizer st2 = fst r \<and> model st2 = with_parameters (model st1) (snd r) \<and>
          step_calls st2 = step_calls st1 + 1"
    if "1 \<le> i \<and> i < length S \<and> SimpleLLM_forward (model st1) (take i S) = Inr out \<and>
        0 < nrow out \<and> 0 \<le> S ! i \<and> S ! i < int (ncol out)"
    for i out and st1 :: "('a, 'b) trainer"
    using that train_example_step [of st1 "(take i S, S ! i)" out autograd update]
    by (simp add: train_prefix_example)
  assume a: "SimpleLLM_ok V D H (model st) \<and> keeps_shapes V D H update \<and>
    (\<forall>t\<in>set S. 0 \<le> t \<and> t < int V) \<and> length S \<le> 5001"
  then have rng: "\<forall>t\<in>set S. 0 \<le> t \<and> t < int V" and le: "length S \<le> 5001"
    and ks: "keeps_shapes V D H update" and ok: "SimpleLLM_ok V D H (model st)"
    by blast+
  have "\<exists>st'. for_loop (train_example autograd update) (examples S) st = (None, st') \<and>
          SimpleLLM_ok V D H (model st') \<and> step_calls st' = step_calls st + length (examples S)"
  proof (rule for_loop_invariant [where I = "\<lambda>st. SimpleLLM_ok V D H (model st)"])
    fix ex and st1 :: "('a, 'b) trainer"
    assume "ex \<in> set (examples S)" and "SimpleLLM_ok V D H (model st1)"
    with examples_ok [OF rng le] ks
    show "\<exists>st'. train_example autograd update ex st1 = (None, st') \<and>
            SimpleLLM_ok V D H (model st') \<and> step_calls st' = step_calls st1 + 1"
      by (intro train_example_ok) auto
  qed (rule ok)
  then show "\<exists>st'. train_sentence autograd update S st = (None, st') \<and>
                SimpleLLM_ok V D H (model st') \<and>
                step_calls st' = step_calls st + (length S - 1)"
    by (simp add: train_sentence_examples len)
qed


lemma example_update_keeps_shapes: "keeps_shapes V D H example_update"
  by (simp add: keeps_shapes_def example_update_def params_ok_def Linear_ok_def in_features_def
      out_features_def)

text \<open>
  The theorem at the example trainer: the pass for the prefix \<open>[0]\<close> of \<open>[0, 2, 1]\<close> with
  target 2 and logits \<open>[1, 3, 3]\<close>, the whole sequence (two examples, two steps), and the
  sequence \<open>[0]\<close> (none).
\<close>

theorem train_sentence_teacher_forcing_witness:
  "SimpleLLM_ok 3 2 1 (model example_trainer) \<and> length [0, 2, 1 :: int] \<le> 5001 \<and>
   examples [0, 2, 1] = [([0], 2), ([0, 2], 1)] \<and>
   fst (train_prefix example_autograd example_update [0, 2, 1] 1 example_trainer) = None \<and>
   loss (snd (train_prefix example_autograd example_update [0, 2, 1] 1 example_trainer)) =
     Some (- ln (exp 3 / (exp 1 + exp 3 + exp 3))) \<and>
   step_calls (snd (train_prefix example_autograd example_update [0, 2, 1] 1 example_trainer)) = 1 \<and>
   fst (train_sentence example_autograd example_update [0, 2, 1] example_trainer) = None \<and>
   step_calls (snd (train_sentence example_autograd example_update [0, 2, 1] example_trainer)) = 2 \<and>
   train_sentence example_autograd example_update [0] example_trainer = (None, example_trainer)"
proof -
  have ok: "SimpleLLM_ok 3 2 1 (model example_trainer)"
    using example_model_ok by (simp add: example_trainer_def)
  have rng: "\<forall>t\<in>set [0, 2, 1 :: int]. 0 \<le> t \<and> t < int 3"
    by simp
  have len: "length [0, 2, 1 :: int] \<le> 5001"
    by simp
  note th = train_sentence_teacher_forcing [where autograd = example_autograd
      and update = example_update and S = "[0, 2, 1]" and st = example_trainer
      and V = 3 and D = 2 and H = 1]
  have rng0: "\<forall>i\<in>set [0 :: int]. 0 \<le> i \<and> i < int 3" and len0: "length [0 :: int] \<le> 5000"
    by simp_all
  from SimpleLLM_forward_shape [OF ok rng0 len0]
  obtain out where out: "SimpleLLM_forward (model example_trainer) [0] = Inr out"
      "nrow out = 1" "ncol out = 3"
    by auto
  have lg: "cell out i j = [1, 3, 3] ! j" for i j
    using out(1) by (intro example_model_logits) (simp add: example_trainer_def)
  have hyp: "1 \<le> (1::nat) \<and> 1 < length [0, 2, 1 :: int] \<and>
      SimpleLLM_forward (model example_trainer) (take 1 [0, 2, 1]) = Inr out \<and>
      0 < nrow out \<and> 0 \<le> [0, 2, 1 :: int] ! 1 \<and> [0, 2, 1 :: int] ! 1 < int (ncol out)"
    using out by simp
  from th [THEN conjunct2, THEN conjunct2, THEN conjunct2, THEN conjunct1, rule_format, OF hyp]
  obtain st2 where st2:
      "train_prefix example_autograd example_update [0, 2, 1] 1 example_trainer = (None, st2)"
      "loss st2 = Some (- ln (exp (cell out (nrow out - 1) (nat ([0, 2, 1] ! 1))) /
                           (\<Sum>j<ncol out. exp (cell out (nrow out - 1) j))))"
      "step_calls st2 = step_calls example_trainer + 1"
    by blast
  have "(\<Sum>j<ncol out. exp (cell out (nrow out - 1) j)) = exp 1 + exp 3 + exp 3"
    by (simp add: out(2,3) lg numeral_3_eq_3)
  with st2(2) have l: "loss st2 = Some (- ln (exp 3 / (exp 1 + exp 3 + exp 3)))"
    by (simp add: lg)
  from st2(3) have s1: "step_calls st2 = 1"
    by (simp add: example_trainer_def)
  from th have "examples [0, 2, 1] ! 0 = (take (0 + 1) [0, 2, 1], [0, 2, 1 :: int] ! (0 + 1))"
      "examples [0, 2, 1] ! 1 = (take (1 + 1) [0, 2, 1], [0, 2, 1 :: int] ! (1 + 1))"
      "length (examples [0, 2, 1]) = length [0, 2, 1 :: int] - 1"
    by simp_all
  then have ex: "examples [0, 2, 1] = [([0], 2), ([0, 2], 1)]"
    by (simp add: list_eq_iff_nth_eq less_Suc_eq numeral_2_eq_2)
  from th ok example_update_keeps_shapes rng len obtain st' where
      st': "train_sentence example_autograd example_update [0, 2, 1] example_trainer = (None, st')"
        "step_calls st' = step_calls example_trainer + (length [0, 2, 1 :: int] - 1)"
    by blast
  have steps: "step_calls (snd (train_sentence example_autograd example_update [0, 2, 1]
      example_trainer)) = 2"
    using st' by (simp add: example_trainer_def)
  from train_sentence_teacher_forcing [where autograd = example_autograd
      and update = example_update and S = "[0]" and st = example_trainer]
  have short: "train_sentence example_autograd example_update [0] example_trainer =
      (None, example_trainer)"
    by simp
  from ok len ex st2(1) l s1 st'(1) steps short show ?thesis
    by (intro conjI) simp_all
qed

end
